theory Spec2Isabelle
  imports Complex_Main
begin

section \<open>Attendance session engine: data model\<close>

text \<open>
  The embedding follows \<^verbatim>\<open>app/models\<close> and \<^verbatim>\<open>app/services\<close>. Python floats are
  idealised as \<^typ>\<open>real\<close>; identifiers are the strings the code stores. The database is
  the three tables the services read and write, each a list of rows in insertion order. A
  \<^verbatim>\<open>select(...).where(id == x)\<close> followed by \<^verbatim>\<open>scalar_one_or_none()\<close> is a search
  for the row with that primary key.
\<close>

datatype SessionStatus = ACTIVE | CHECKED_IN | COMPLETED | ENDED

datatype EventType = CHECK_IN | CHECK_OUT | LOCATION_UPDATE | STATUS_CHANGE

record Meeting =
  m_id :: string
  m_name :: string
  m_address :: string
  m_lat :: real
  m_lng :: real
  radius_meters :: real
  m_is_active :: bool

record Session =
  s_id :: string
  contact_id :: string
  meeting_id :: "string option"
  dest_name :: string
  dest_address :: string
  dest_lat :: real
  dest_lng :: real
  session_notes :: "string option"
  status :: SessionStatus
  is_complete :: bool

record LocationData =
  latitude :: real
  longitude :: real
  accuracy :: "real option"
  altitude :: "real option"
  speed :: "real option"
  heading :: "real option"

text \<open>
  The declarative base class of the models (\<^verbatim>\<open>app/models/base.py\<close>) is not among the
  sources: a model object is taken to be the record of the keyword arguments its
  constructor is given. An event has the fields
  \<^verbatim>\<open>LocationService.create_session_event\<close> passes, \<^verbatim>\<open>location_flag=True\<close> among
  them.
\<close>

record SessionEvent =
  e_id :: string
  session_id :: string
  e_type :: EventType
  e_lat :: real
  e_lng :: real
  e_accuracy :: "real option"
  e_altitude :: "real option"
  e_speed :: "real option"
  e_heading :: "real option"
  e_notes :: "string option"
  location_flag :: bool

record database =
  meetings :: "Meeting list"
  sessions :: "Session list"
  events :: "SessionEvent list"

text \<open>
  What a call does: it returns a value or raises. \<^verbatim>\<open>ValueError\<close> and
  \<^verbatim>\<open>RuntimeError\<close> are Python's; the others are classes of
  \<^verbatim>\<open>app/core/exceptions.py\<close>.
\<close>

datatype exn =
    ValueError string
  | RuntimeError string
  | ValidationError string
  | NotFoundError string
  | ConflictError string

datatype 'a outcome = Returns 'a | Raises exn

section \<open>LocationService\<close>

text \<open>
  \<^verbatim>\<open>geopy.distance.geodesic\<close> is a library function: it is a parameter of the model,
  \<open>None\<close> when it raises (a latitude outside \<open>[-90, 90]\<close>).
  \<^verbatim>\<open>float('inf')\<close> is the constructor \<open>Infinite\<close>.
\<close>

type_synonym geodesic = "real \<times> real \<Rightarrow> real \<times> real \<Rightarrow> real option"

datatype distance = Meters real | Infinite

record ProximityResult =
  is_within_range :: bool
  distance_meters :: distance
  pr_meeting_id :: "string option"
  pr_meeting_name :: "string option"
  accuracy_confidence :: real

definition default_radius_meters :: real where
  "default_radius_meters = 100"

definition max_radius_meters :: real where
  "max_radius_meters = 1000"

definition min_accuracy_meters :: real where
  "min_accuracy_meters = 1000"

definition calculate_accuracy_confidence :: "real \<Rightarrow> real \<Rightarrow> real option \<Rightarrow> real" where
  "calculate_accuracy_confidence dm radius gps_accuracy =
     (let distance_ratio = min (dm / radius) 1;
          base_confidence = 1 - distance_ratio;
          base_confidence =
            (case gps_accuracy of
               None \<Rightarrow> base_confidence
             | Some a \<Rightarrow> base_confidence * max 0 (1 - a / min_accuracy_meters))
      in max 0 (min 1 base_confidence))"

definition out_of_reach :: ProximityResult where
  "out_of_reach =
     \<lparr>is_within_range = False, distance_meters = Infinite, pr_meeting_id = None,
      pr_meeting_name = None, accuracy_confidence = 0\<rparr>"

definition get_meeting :: "database \<Rightarrow> string \<Rightarrow> Meeting option" where
  "get_meeting db mid = find (\<lambda>m. m_id m = mid) (meetings db)"

definition required_radius :: "Meeting \<Rightarrow> real" where
  "required_radius meeting =
     (let radius = (if radius_meters meeting \<noteq> 0 then radius_meters meeting
                    else default_radius_meters)
      in if radius > max_radius_meters then radius else min radius max_radius_meters)"

definition verify_location ::
  "geodesic \<Rightarrow> database \<Rightarrow> real \<Rightarrow> real \<Rightarrow> string \<Rightarrow> real option \<Rightarrow> ProximityResult" where
  "verify_location geo db user_lat user_lng mid required_accuracy =
     (case get_meeting db mid of
        None \<Rightarrow> out_of_reach
      | Some meeting \<Rightarrow>
          (case geo (m_lat meeting, m_lng meeting) (user_lat, user_lng) of
             None \<Rightarrow> out_of_reach
           | Some dm \<Rightarrow>
               (let radius = required_radius meeting
                in \<lparr>is_within_range = (dm \<le> radius),
                    distance_meters = Meters dm,
                    pr_meeting_id = Some (m_id meeting),
                    pr_meeting_name = Some (m_name meeting),
                    accuracy_confidence =
                      calculate_accuracy_confidence dm radius required_accuracy\<rparr>)))"



text \<open>A flat stand-in for the library's distance, used to run the model on examples.\<close>

definition flat_geodesic :: geodesic where
  "flat_geodesic p q =
     (if \<bar>fst p\<bar> \<le> 90 \<and> \<bar>fst q\<bar> \<le> 90
      then Some (111000 * (\<bar>fst p - fst q\<bar> + \<bar>snd p - snd q\<bar>)) else None)"

section \<open>SessionService\<close>

text \<open>
  Rows are found and updated by primary key; inserting a row whose key is already present
  is the database's integrity error. Each operation draws at most one \<^verbatim>\<open>uuid4()\<close>,
  passed as \<open>uid\<close>. Foreign keys and timestamps (\<^verbatim>\<open>ts_client\<close>, \<^verbatim>\<open>ts_server\<close>,
  \<^verbatim>\<open>created_at\<close>) are not part of the state.

  The model is the services' logic over a store that accepts every row with a fresh key.
  The code's own store accepts less, on three paths:
  \<^item> \<^verbatim>\<open>create_session_event\<close> builds its \<^verbatim>\<open>SessionEvent\<close> with
    \<^verbatim>\<open>altitude\<close>, \<^verbatim>\<open>speed\<close> and \<^verbatim>\<open>heading\<close>, which the model class does
    not declare, with \<^verbatim>\<open>location_flag=True\<close> where the class declares an
    enumeration, and without \<^verbatim>\<open>ts_client\<close>, which is not nullable: the constructor
    or the insert raises, the function catches it and returns \<^verbatim>\<open>None\<close>;
  \<^item> the assignments to \<^verbatim>\<open>check_in_time\<close> and \<^verbatim>\<open>check_out_time\<close> run property
    setters of the \<^verbatim>\<open>Session\<close> model that read the session's events, a lazy load
    that raises under the asynchronous database session;
  \<^item> \<^verbatim>\<open>OfflineService\<close> passes \<^verbatim>\<open>end_session\<close> a \<^verbatim>\<open>UUID\<close> object, which the
    query compares with the string key as it is.

  So where the model stores an event (the last branch of \<^verbatim>\<open>create_session_event\<close>,
  hence a successful \<^verbatim>\<open>check_in\<close> or \<^verbatim>\<open>check_out\<close>) or ends a session by
  \<^verbatim>\<open>end_session\<close>, the code as it stands returns \<^verbatim>\<open>None\<close> or \<^verbatim>\<open>False\<close>
  and changes nothing. Every other branch is the code's, and the states the code reaches
  are among the model's. \<^verbatim>\<open>create_session\<close> and \<^verbatim>\<open>create_general_session\<close>
  write columns the model class declares and do succeed in the code.
\<close>

definition str_of_id :: "string option \<Rightarrow> string" where
  "str_of_id x = (case x of None \<Rightarrow> ''None'' | Some s \<Rightarrow> s)"

definition get_session :: "database \<Rightarrow> string \<Rightarrow> Session option" where
  "get_session db sid = find (\<lambda>s. s_id s = sid) (sessions db)"

definition update_session :: "string \<Rightarrow> (Session \<Rightarrow> Session) \<Rightarrow> database \<Rightarrow> database" where
  "update_session sid f db =
     db\<lparr>sessions := map (\<lambda>s. if s_id s = sid then f s else s) (sessions db)\<rparr>"

definition add_session :: "Session \<Rightarrow> database \<Rightarrow> database option" where
  "add_session s db =
     (if s_id s \<in> s_id ` set (sessions db) then None
      else Some (db\<lparr>sessions := sessions db @ [s]\<rparr>))"

definition add_event :: "SessionEvent \<Rightarrow> database \<Rightarrow> database option" where
  "add_event e db =
     (if e_id e \<in> e_id ` set (events db) then None
      else Some (db\<lparr>events := events db @ [e]\<rparr>))"

definition is_live :: "Session \<Rightarrow> bool" where
  "is_live s = (status s = ACTIVE \<or> status s = CHECKED_IN)"

definition live_sessions :: "database \<Rightarrow> string \<Rightarrow> Session list" where
  "live_sessions db cid = filter (\<lambda>s. contact_id s = cid \<and> is_live s) (sessions db)"

text \<open>
  \<^verbatim>\<open>scalar_one_or_none()\<close> raises when the query has more than one row; the
  \<^verbatim>\<open>except\<close> of \<^verbatim>\<open>get_active_session\<close> turns that into \<^verbatim>\<open>None\<close>.
\<close>

definition get_active_session :: "database \<Rightarrow> string \<Rightarrow> Session option" where
  "get_active_session db cid =
     (case live_sessions db cid of [] \<Rightarrow> None | [s] \<Rightarrow> Some s | _ # _ # _ \<Rightarrow> None)"

definition end_existing_session :: "database \<Rightarrow> string \<Rightarrow> database" where
  "end_existing_session db cid =
     (case get_active_session db cid of
        None \<Rightarrow> db
      | Some existing_session \<Rightarrow>
          update_session (s_id existing_session)
            (\<lambda>s. s\<lparr>status := ENDED, is_complete := True\<rparr>) db)"

definition new_session :: "string \<Rightarrow> string \<Rightarrow> string \<Rightarrow> Meeting \<Rightarrow> string option \<Rightarrow> Session" where
  "new_session uid cid mid meeting notes =
     \<lparr>s_id = uid, contact_id = cid, meeting_id = Some mid,
      dest_name = m_name meeting, dest_address = m_address meeting,
      dest_lat = m_lat meeting, dest_lng = m_lng meeting,
      session_notes = notes, status = ACTIVE, is_complete = False\<rparr>"

definition create_session ::
  "string \<Rightarrow> database \<Rightarrow> string \<Rightarrow> string \<Rightarrow> string option \<Rightarrow> Session outcome \<times> database" where
  "create_session uid db cid mid notes =
     (case find (\<lambda>m. m_id m = mid \<and> m_is_active m) (meetings db) of
        None \<Rightarrow>
          (case get_meeting db mid of
             Some inactive_meeting \<Rightarrow>
               (Raises (ValueError (''Meeting '' @ mid @ '' is not active'')), db)
           | None \<Rightarrow> (Raises (ValueError (''Meeting '' @ mid @ '' not found'')), db))
      | Some meeting \<Rightarrow>
          (let db1 = end_existing_session db cid;
               session = new_session uid cid mid meeting notes
           in case add_session session db1 of
                None \<Rightarrow> (Raises (RuntimeError ''Failed to create session''), db1)
              | Some db2 \<Rightarrow> (Returns session, db2)))"

definition general_notes :: "string option \<Rightarrow> string" where
  "general_notes notes =
     (case notes of
        None \<Rightarrow> ''General session created on login''
      | Some n \<Rightarrow> if n = [] then ''General session created on login'' else n)"

definition general_session :: "string \<Rightarrow> string \<Rightarrow> string option \<Rightarrow> Session" where
  "general_session uid cid notes =
     \<lparr>s_id = uid, contact_id = cid, meeting_id = None,
      dest_name = ''General Session'', dest_address = ''N/A'',
      dest_lat = 0, dest_lng = 0,
      session_notes = Some (general_notes notes), status = ACTIVE,
      is_complete = False\<rparr>"

definition create_general_session ::
  "string \<Rightarrow> database \<Rightarrow> string \<Rightarrow> string option \<Rightarrow> Session outcome \<times> database" where
  "create_general_session uid db cid notes =
     (case get_active_session db cid of
        Some existing_session \<Rightarrow> (Returns existing_session, db)
      | None \<Rightarrow>
          (let session = general_session uid cid notes
           in case add_session session db of
                None \<Rightarrow> (Raises (RuntimeError ''Failed to create general session''), db)
              | Some db1 \<Rightarrow> (Returns session, db1)))"

text \<open>
  \<^verbatim>\<open>LocationService.create_session_event\<close> verifies the location itself whenever it
  is given a non-empty meeting id and a check-in or check-out event.
\<close>

definition create_session_event ::
  "geodesic \<Rightarrow> string \<Rightarrow> database \<Rightarrow> string \<Rightarrow> EventType \<Rightarrow> LocationData \<Rightarrow> string option \<Rightarrow>
   string option \<Rightarrow> SessionEvent option \<times> database" where
  "create_session_event geo uid db sid event_type location_data mid notes =
     (if (case mid of
            None \<Rightarrow> False
          | Some m \<Rightarrow>
              m \<noteq> [] \<and> (event_type = CHECK_IN \<or> event_type = CHECK_OUT) \<and>
              \<not> is_within_range
                  (verify_location geo db (latitude location_data) (longitude location_data) m
                     (accuracy location_data)))
      then (None, db)
      else
        (let session_event =
               \<lparr>e_id = uid, session_id = sid, e_type = event_type,
                e_lat = latitude location_data, e_lng = longitude location_data,
                e_accuracy = accuracy location_data, e_altitude = altitude location_data,
                e_speed = speed location_data, e_heading = heading location_data,
                e_notes = notes, location_flag = True\<rparr>
         in case add_event session_event db of
              None \<Rightarrow> (None, db)
            | Some db1 \<Rightarrow> (Some session_event, db1)))"

fun contains :: "string \<Rightarrow> string \<Rightarrow> bool" where
  "contains sub [] = (sub = [])"
| "contains sub (c # cs) = (take (length sub) (c # cs) = sub \<or> contains sub cs)"

definition is_test_meeting :: "Meeting \<Rightarrow> bool" where
  "is_test_meeting meeting =
     (contains ''AYA Demo'' (m_name meeting) \<or> radius_meters meeting \<ge> 5000)"

definition check_in ::
  "geodesic \<Rightarrow> string \<Rightarrow> database \<Rightarrow> string \<Rightarrow> LocationData \<Rightarrow> string option \<Rightarrow>
   SessionEvent option outcome \<times> database" where
  "check_in geo uid db sid location_data notes =
     (case get_session db sid of
        None \<Rightarrow> (Returns None, db)
      | Some session \<Rightarrow>
          if status session \<noteq> ACTIVE then (Returns None, db)
          else
            (case get_meeting db (str_of_id (meeting_id session)) of
               None \<Rightarrow> (Returns None, db)
             | Some meeting \<Rightarrow>
                 (let proximity_result =
                        verify_location geo db (latitude location_data)
                          (longitude location_data) (str_of_id (meeting_id session))
                          (accuracy location_data)
                  in if \<not> is_within_range proximity_result \<and> \<not> is_test_meeting meeting
                     then (Returns None, db)
                     else
                       (case create_session_event geo uid db sid CHECK_IN location_data
                               (Some (str_of_id (meeting_id session))) notes of
                          (None, db1) \<Rightarrow> (Returns None, db1)
                        | (Some event, db1) \<Rightarrow>
                            (Returns (Some event),
                             update_session sid (\<lambda>s. s\<lparr>status := CHECKED_IN\<rparr>) db1)))))"

definition check_out ::
  "geodesic \<Rightarrow> string \<Rightarrow> database \<Rightarrow> string \<Rightarrow> LocationData \<Rightarrow> string option \<Rightarrow>
   SessionEvent option outcome \<times> database" where
  "check_out geo uid db sid location_data notes =
     (case get_session db sid of
        None \<Rightarrow> (Returns None, db)
      | Some session \<Rightarrow>
          if status session \<noteq> CHECKED_IN then (Returns None, db)
          else if \<not> is_within_range
                    (verify_location geo db (latitude location_data)
                       (longitude location_data) (str_of_id (meeting_id session))
                       (accuracy location_data))
          then (Returns None, db)
          else
            (case create_session_event geo uid db sid CHECK_OUT location_data
                    (Some (str_of_id (meeting_id session))) notes of
               (None, db1) \<Rightarrow> (Returns None, db1)
             | (Some event, db1) \<Rightarrow>
                 (Returns (Some event),
                  update_session sid (\<lambda>s. s\<lparr>status := COMPLETED\<rparr>) db1)))"

text \<open>
  \<^verbatim>\<open>str.strip()\<close> removes leading and trailing whitespace; the ASCII whitespace
  characters are modelled.
\<close>

definition is_space :: "char \<Rightarrow> bool" where
  "is_space c =
     (c \<in> set [CHR '' '', CHR 0x09, CHR 0x0A, CHR 0x0B, CHR 0x0C, CHR 0x0D,
                CHR 0x1C, CHR 0x1D, CHR 0x1E, CHR 0x1F])"

definition strip :: "string \<Rightarrow> string" where
  "strip s = rev (dropWhile is_space (rev (dropWhile is_space s)))"

definition ended_notes :: "string option \<Rightarrow> string \<Rightarrow> string" where
  "ended_notes old reason =
     strip ((case old of None \<Rightarrow> [] | Some n \<Rightarrow> n) @ [CHR 0x0A] @ ''Ended: '' @ reason)"

definition end_session :: "database \<Rightarrow> string \<Rightarrow> string \<Rightarrow> bool outcome \<times> database" where
  "end_session db sid reason =
     (case get_session db sid of
        None \<Rightarrow> (Returns False, db)
      | Some session \<Rightarrow>
          (Returns True,
           update_session sid
             (\<lambda>s. s\<lparr>status := ENDED,
                     session_notes := Some (ended_notes (session_notes s) reason)\<rparr>) db))"

section \<open>OfflineService\<close>

text \<open>
  An operation's payload has the fields \<^verbatim>\<open>app/schemas/offline.py\<close> types; a key the
  dictionary lacks is \<open>None\<close>. \<^verbatim>\<open>created_at\<close> and \<^verbatim>\<open>last_attempt\<close> are
  microseconds since the epoch, so \<^verbatim>\<open>int(created_at.timestamp())\<close> is the whole
  seconds.
\<close>

record payload =
  p_session_id :: "string option"
  p_latitude :: "real option"
  p_longitude :: "real option"
  p_accuracy :: "real option"
  p_altitude :: "real option"
  p_speed :: "real option"
  p_heading :: "real option"
  p_notes :: "string option"
  p_contact_id :: "string option"
  p_meeting_id :: "string option"
  p_reason :: "string option"

record OfflineOperation =
  op_id :: string
  operation_type :: string
  op_data :: payload
  user_id :: string
  priority :: int
  max_retries :: int
  retry_count :: int
  created_at :: nat
  last_attempt :: "nat option"
  op_status :: string

text \<open>
  Redis holds, per key, a sorted set of members with scores or a list. A member is the JSON
  text of an operation; \<^verbatim>\<open>to_dict\<close> and \<^verbatim>\<open>from_dict\<close> are inverse to each other,
  so the model stores the operation itself. Key expiry is not modelled.
\<close>

type_synonym zset = "(OfflineOperation \<times> int) list"

record redis =
  zsets :: "string \<Rightarrow> zset"
  rlists :: "string \<Rightarrow> OfflineOperation list"

definition queue_key :: "string \<Rightarrow> string" where
  "queue_key uid = ''offline_queue:'' @ uid"

definition failed_key :: "string \<Rightarrow> string" where
  "failed_key uid = ''offline_failed:'' @ uid"

definition score :: "OfflineOperation \<Rightarrow> int" where
  "score operation = priority operation * 1000000 - int (created_at operation div 1000000)"

text \<open>\<^verbatim>\<open>ZADD\<close>: a member already in the set only has its score replaced.\<close>

definition zadd :: "string \<Rightarrow> OfflineOperation \<Rightarrow> int \<Rightarrow> redis \<Rightarrow> redis" where
  "zadd k member sc r =
     r\<lparr>zsets := (zsets r)(k := (member, sc) # filter (\<lambda>e. fst e \<noteq> member) (zsets r k))\<rparr>"

text \<open>
  \<^verbatim>\<open>ZREVRANGE\<close> lists by descending score; members of equal score come in descending
  byte order of their text, which \<^verbatim>\<open>json.dumps\<close> decides: that order is the
  parameter \<open>after\<close>. Indices are Redis's: inclusive, negative ones counted from the end.
\<close>

type_synonym member_order = "OfflineOperation \<Rightarrow> OfflineOperation \<Rightarrow> bool"

definition before :: "member_order \<Rightarrow> OfflineOperation \<times> int \<Rightarrow> OfflineOperation \<times> int \<Rightarrow> bool" where
  "before after x y = (snd x > snd y \<or> (snd x = snd y \<and> after (fst x) (fst y)))"

fun zinsert :: "member_order \<Rightarrow> OfflineOperation \<times> int \<Rightarrow> zset \<Rightarrow> zset" where
  "zinsert after x [] = [x]"
| "zinsert after x (y # ys) =
     (if before after x y then x # y # ys else y # zinsert after x ys)"

definition zrev_sorted :: "member_order \<Rightarrow> zset \<Rightarrow> zset" where
  "zrev_sorted after z = foldr (zinsert after) z []"

definition redis_range :: "'a list \<Rightarrow> int \<Rightarrow> int \<Rightarrow> 'a list" where
  "redis_range xs start stop =
     (let n = int (length xs);
          s = (if start < 0 then max (n + start) 0 else start);
          e = min (if stop < 0 then n + stop else stop) (n - 1)
      in if s > e \<or> s \<ge> n then [] else take (nat (e - s + 1)) (drop (nat s) xs))"

definition zrevrange :: "member_order \<Rightarrow> redis \<Rightarrow> string \<Rightarrow> int \<Rightarrow> int \<Rightarrow> zset" where
  "zrevrange after r k start stop = redis_range (zrev_sorted after (zsets r k)) start stop"

definition lpush :: "string \<Rightarrow> OfflineOperation \<Rightarrow> redis \<Rightarrow> redis" where
  "lpush k member r = r\<lparr>rlists := (rlists r)(k := member # rlists r k)\<rparr>"

definition lrange :: "redis \<Rightarrow> string \<Rightarrow> int \<Rightarrow> int \<Rightarrow> OfflineOperation list" where
  "lrange r k start stop = redis_range (rlists r k) start stop"

definition lrem1 :: "string \<Rightarrow> OfflineOperation \<Rightarrow> redis \<Rightarrow> redis" where
  "lrem1 k member r = r\<lparr>rlists := (rlists r)(k := remove1 member (rlists r k))\<rparr>"

definition new_operation ::
  "string \<Rightarrow> nat \<Rightarrow> string \<Rightarrow> payload \<Rightarrow> string \<Rightarrow> int \<Rightarrow> int \<Rightarrow> OfflineOperation" where
  "new_operation uid now otype data usr prio maxr =
     \<lparr>op_id = uid, operation_type = otype, op_data = data, user_id = usr, priority = prio,
      max_retries = maxr, retry_count = 0, created_at = now, last_attempt = None,
      op_status = ''pending''\<rparr>"

definition queue_operation ::
  "string \<Rightarrow> nat \<Rightarrow> redis \<Rightarrow> string \<Rightarrow> payload \<Rightarrow> string \<Rightarrow> int \<Rightarrow> string \<times> redis" where
  "queue_operation uid now r otype data usr prio =
     (let operation = new_operation uid now otype data usr prio 3
      in (op_id operation, zadd (queue_key usr) operation (score operation) r))"

definition get_pending_operations ::
  "member_order \<Rightarrow> redis \<Rightarrow> string \<Rightarrow> int \<Rightarrow> OfflineOperation list" where
  "get_pending_operations after r usr limit =
     map fst (zrevrange after r (queue_key usr) 0 (limit - 1))"

definition get_failed_operations :: "redis \<Rightarrow> string \<Rightarrow> int \<Rightarrow> OfflineOperation list" where
  "get_failed_operations r usr limit = lrange r (failed_key usr) 0 (limit - 1)"

definition remove_operation :: "OfflineOperation \<Rightarrow> redis \<Rightarrow> redis" where
  "remove_operation operation r =
     r\<lparr>zsets := (zsets r)(queue_key (user_id operation) := [])\<rparr>"

definition move_to_failed :: "OfflineOperation \<Rightarrow> redis \<Rightarrow> redis" where
  "move_to_failed operation r = lpush (failed_key (user_id operation)) operation r"

definition update_operation :: "OfflineOperation \<Rightarrow> redis \<Rightarrow> redis" where
  "update_operation operation r =
     zadd (queue_key (user_id operation)) operation (score operation) r"

text \<open>
  \<^verbatim>\<open>UUID(...)\<close> followed by \<^verbatim>\<open>str\<close> is the standard library's: the parameter
  \<open>uuid\<close>, \<open>None\<close> when the text is no UUID. Each \<^verbatim>\<open>_process_*\<close> catches every
  exception (a missing key, a malformed UUID, an error raised by the service) and returns
  \<^verbatim>\<open>False\<close>.
\<close>

type_synonym uuid_parser = "string \<Rightarrow> string option"

definition location_of :: "payload \<Rightarrow> LocationData option" where
  "location_of data =
     (case (p_latitude data, p_longitude data) of
        (Some la, Some lo) \<Rightarrow>
          Some \<lparr>latitude = la, longitude = lo, accuracy = p_accuracy data,
                altitude = p_altitude data, speed = p_speed data, heading = p_heading data\<rparr>
      | _ \<Rightarrow> None)"

definition parsed_id :: "uuid_parser \<Rightarrow> string option \<Rightarrow> string option" where
  "parsed_id uuid x = (case x of None \<Rightarrow> None | Some s \<Rightarrow> uuid s)"

definition process_check_in ::
  "geodesic \<Rightarrow> uuid_parser \<Rightarrow> string \<Rightarrow> OfflineOperation \<Rightarrow> database \<Rightarrow> bool \<times> database" where
  "process_check_in geo uuid uid operation db =
     (case (location_of (op_data operation), parsed_id uuid (p_session_id (op_data operation))) of
        (Some location_data, Some sid) \<Rightarrow>
          (case check_in geo uid db sid location_data (p_notes (op_data operation)) of
             (Returns event, db1) \<Rightarrow> (event \<noteq> None, db1)
           | (Raises e, db1) \<Rightarrow> (False, db1))
      | _ \<Rightarrow> (False, db))"

definition process_check_out ::
  "geodesic \<Rightarrow> uuid_parser \<Rightarrow> string \<Rightarrow> OfflineOperation \<Rightarrow> database \<Rightarrow> bool \<times> database" where
  "process_check_out geo uuid uid operation db =
     (case (location_of (op_data operation), parsed_id uuid (p_session_id (op_data operation))) of
        (Some location_data, Some sid) \<Rightarrow>
          (case check_out geo uid db sid location_data (p_notes (op_data operation)) of
             (Returns event, db1) \<Rightarrow> (event \<noteq> None, db1)
           | (Raises e, db1) \<Rightarrow> (False, db1))
      | _ \<Rightarrow> (False, db))"

definition process_create_session ::
  "uuid_parser \<Rightarrow> string \<Rightarrow> OfflineOperation \<Rightarrow> database \<Rightarrow> bool \<times> database" where
  "process_create_session uuid uid operation db =
     (case (parsed_id uuid (p_contact_id (op_data operation)),
            parsed_id uuid (p_meeting_id (op_data operation))) of
        (Some cid, Some mid) \<Rightarrow>
          (case create_session uid db cid mid (p_notes (op_data operation)) of
             (Returns session, db1) \<Rightarrow> (True, db1)
           | (Raises e, db1) \<Rightarrow> (False, db1))
      | _ \<Rightarrow> (False, db))"

definition process_end_session ::
  "uuid_parser \<Rightarrow> OfflineOperation \<Rightarrow> database \<Rightarrow> bool \<times> database" where
  "process_end_session uuid operation db =
     (case parsed_id uuid (p_session_id (op_data operation)) of
        Some sid \<Rightarrow>
          (case end_session db sid
                  (case p_reason (op_data operation) of
                     None \<Rightarrow> ''Offline end'' | Some reason \<Rightarrow> reason) of
             (Returns success, db1) \<Rightarrow> (success, db1)
           | (Raises e, db1) \<Rightarrow> (False, db1))
      | None \<Rightarrow> (False, db))"

text \<open>
  \<^verbatim>\<open>process_operation\<close> mutates the operation object it is given and the two stores;
  the model returns the success flag, the operation as mutated, and both stores. Its own
  \<^verbatim>\<open>except\<close> branch is not reached: every function it calls catches what it raises.
  An operation of unknown type is returned at once, marked as processing.
\<close>

definition dispatch ::
  "geodesic \<Rightarrow> uuid_parser \<Rightarrow> string \<Rightarrow> OfflineOperation \<Rightarrow> database \<Rightarrow> (bool \<times> database) option" where
  "dispatch geo uuid uid operation db =
     (if operation_type operation = ''check_in''
        then Some (process_check_in geo uuid uid operation db)
      else if operation_type operation = ''check_out''
        then Some (process_check_out geo uuid uid operation db)
      else if operation_type operation = ''create_session''
        then Some (process_create_session uuid uid operation db)
      else if operation_type operation = ''end_session''
        then Some (process_end_session uuid operation db)
      else None)"

definition process_operation ::
  "geodesic \<Rightarrow> uuid_parser \<Rightarrow> nat \<Rightarrow> string \<Rightarrow> OfflineOperation \<Rightarrow> database \<Rightarrow> redis \<Rightarrow>
   bool \<times> OfflineOperation \<times> database \<times> redis" where
  "process_operation geo uuid now uid operation db r =
     (let op1 = operation\<lparr>op_status := ''processing'', last_attempt := Some now\<rparr>
      in case dispatch geo uuid uid op1 db of
           None \<Rightarrow> (False, op1, db, r)
         | Some (success, db1) \<Rightarrow>
             if success
             then (let op2 = op1\<lparr>op_status := ''completed''\<rparr>
                   in (True, op2, db1, remove_operation op2 r))
             else (let op2 = op1\<lparr>retry_count := retry_count op1 + 1\<rparr>
                   in if retry_count op2 \<ge> max_retries op2
                      then (let op3 = op2\<lparr>op_status := ''failed''\<rparr>
                            in (False, op3, db1, move_to_failed op3 r))
                      else (let op3 = op2\<lparr>op_status := ''pending''\<rparr>
                            in (False, op3, db1, update_operation op3 r))))"

text \<open>
  \<^verbatim>\<open>process_user_queue\<close> lists the pending operations once and processes that list
  in order; \<open>draw k\<close> is the UUID the \<open>k\<close>-th operation of the batch draws, and
  \<open>clock k\<close> the time it reads (\<^verbatim>\<open>datetime.utcnow()\<close> in
  \<^verbatim>\<open>process_operation\<close>).
\<close>

fun process_each ::
  "geodesic \<Rightarrow> uuid_parser \<Rightarrow> (nat \<Rightarrow> nat) \<Rightarrow> (nat \<Rightarrow> string) \<Rightarrow> nat \<Rightarrow>
   OfflineOperation list \<Rightarrow> int \<times> int \<Rightarrow> database \<Rightarrow> redis \<Rightarrow>
   (int \<times> int) \<times> database \<times> redis" where
  "process_each geo uuid clock draw k [] counts db r = (counts, db, r)"
| "process_each geo uuid clock draw k (operation # rest) counts db r =
     (case process_operation geo uuid (clock k) (draw k) operation db r of
        (success, op1, db1, r1) \<Rightarrow>
          process_each geo uuid clock draw (Suc k) rest
            (if success then (fst counts + 1, snd counts) else (fst counts, snd counts + 1))
            db1 r1)"

definition process_user_queue ::
  "geodesic \<Rightarrow> uuid_parser \<Rightarrow> member_order \<Rightarrow> (nat \<Rightarrow> nat) \<Rightarrow> (nat \<Rightarrow> string) \<Rightarrow> string \<Rightarrow>
   int \<Rightarrow> database \<Rightarrow> redis \<Rightarrow> (int \<times> int \<times> int) \<times> database \<times> redis" where
  "process_user_queue geo uuid after clock draw usr max_operations db r =
     (let operations = get_pending_operations after r usr max_operations
      in case process_each geo uuid clock draw 0 operations (0, 0) db r of
           ((processed, failed), db1, r1) \<Rightarrow>
             ((processed, failed, int (length operations)), db1, r1))"

definition retry_failed_operation :: "redis \<Rightarrow> string \<Rightarrow> string \<Rightarrow> bool \<times> redis" where
  "retry_failed_operation r operation_id usr =
     (case find (\<lambda>operation. op_id operation = operation_id) (lrange r (failed_key usr) 0 (-1)) of
        None \<Rightarrow> (False, r)
      | Some found \<Rightarrow>
          (let operation = found\<lparr>retry_count := 0, op_status := ''pending''\<rparr>
           in (True,
               zadd (queue_key usr) operation (score operation)
                 (lrem1 (failed_key usr) found r))))"

definition clear_user_queue :: "redis \<Rightarrow> string \<Rightarrow> bool \<times> redis" where
  "clear_user_queue r usr =
     (True,
      r\<lparr>zsets := (zsets r)(queue_key usr := []),
        rlists := (rlists r)(failed_key usr := [])\<rparr>)"

text \<open>
  Stand-ins of the two library parameters of the queue, used to run examples.
  \<open>canonical_uuid\<close> accepts the canonical spelling of a UUID (lower-case hexadecimal
  digits in groups of 8, 4, 4, 4 and 12), which \<^verbatim>\<open>str(UUID(s))\<close> returns as it is, and
  nothing else; \<open>any_uuid\<close> takes every text for one.
\<close>

definition any_uuid :: uuid_parser where
  "any_uuid s = Some s"

definition is_hex :: "char \<Rightarrow> bool" where
  "is_hex c = (c \<in> set ''0123456789abcdef'')"

definition uuid_shape :: "string \<Rightarrow> string" where
  "uuid_shape s =
     map (\<lambda>c. if is_hex c then CHR ''h'' else if c = CHR ''-'' then CHR ''-'' else CHR ''?'') s"

definition canonical_uuid :: uuid_parser where
  "canonical_uuid s =
     (if uuid_shape s = ''hhhhhhhh-hhhh-hhhh-hhhh-hhhhhhhhhhhh'' then Some s else None)"

fun bytes_less :: "string \<Rightarrow> string \<Rightarrow> bool" where
  "bytes_less [] [] = False"
| "bytes_less [] (y # ys) = True"
| "bytes_less (x # xs) [] = False"
| "bytes_less (x # xs) (y # ys) =
     ((of_char x :: nat) < of_char y \<or> (x = y \<and> bytes_less xs ys))"

definition by_id :: member_order where
  "by_id a b = bytes_less (op_id b) (op_id a)"

definition empty_redis :: redis where
  "empty_redis = \<lparr>zsets = (\<lambda>k. []), rlists = (\<lambda>k. [])\<rparr>"

section \<open>Reachable states\<close>

text \<open>
  The states of the session table the core operations can produce, from a table with no
  session. Meetings belong to another component and may change between two operations.
\<close>

inductive reachable :: "geodesic \<Rightarrow> database \<Rightarrow> bool" for geo :: geodesic where
  no_sessions: "sessions db = [] \<Longrightarrow> reachable geo db"
| meetings_edited: "reachable geo db \<Longrightarrow> reachable geo (db\<lparr>meetings := ms\<rparr>)"
| by_create_session:
    "reachable geo db \<Longrightarrow> reachable geo (snd (create_session uid db cid mid notes))"
| by_create_general_session:
    "reachable geo db \<Longrightarrow> reachable geo (snd (create_general_session uid db cid notes))"
| by_check_in:
    "reachable geo db \<Longrightarrow> reachable geo (snd (check_in geo uid db sid location_data notes))"
| by_check_out:
    "reachable geo db \<Longrightarrow> reachable geo (snd (check_out geo uid db sid location_data notes))"
| by_end_session:
    "reachable geo db \<Longrightarrow> reachable geo (snd (end_session db sid reason))"

definition session_inv :: "database \<Rightarrow> bool" where
  "session_inv db =
     (distinct (map s_id (sessions db)) \<and> (\<forall>cid. length (live_sessions db cid) \<le> 1))"

text \<open>
  The states of the queue store: operations are enqueued, an operation taken from a
  pending set is processed (against any database), a failed one is retried, a user's
  queue is cleared.
\<close>

inductive queue_state :: "geodesic \<Rightarrow> uuid_parser \<Rightarrow> redis \<Rightarrow> bool"
  for geo :: geodesic and uuid :: uuid_parser where
  nothing_queued: "queue_state geo uuid empty_redis"
| by_queue_operation:
    "queue_state geo uuid r \<Longrightarrow>
     queue_state geo uuid (snd (queue_operation uid now r otype data usr prio))"
| by_process_operation:
    "queue_state geo uuid r \<Longrightarrow> operation \<in> fst ` set (zsets r (queue_key usr)) \<Longrightarrow>
     queue_state geo uuid (snd (snd (snd (process_operation geo uuid now uid operation db r))))"
| by_retry_failed_operation:
    "queue_state geo uuid r \<Longrightarrow>
     queue_state geo uuid (snd (retry_failed_operation r operation_id usr))"
| by_clear_user_queue:
    "queue_state geo uuid r \<Longrightarrow> queue_state geo uuid (snd (clear_user_queue r usr))"

definition scored :: "redis \<Rightarrow> bool" where
  "scored r = (\<forall>k. \<forall>e \<in> set (zsets r k). snd e = score (fst e))"

definition whole_seconds :: "OfflineOperation \<Rightarrow> int" where
  "whole_seconds operation = int (created_at operation div 1000000)"

text \<open>An operation after an attempt that failed, as \<^verbatim>\<open>process_operation\<close> leaves it.\<close>

definition failed_attempt :: "nat \<Rightarrow> OfflineOperation \<Rightarrow> OfflineOperation" where
  "failed_attempt now operation =
     operation\<lparr>last_attempt := Some now,
                retry_count := retry_count operation + 1,
                op_status := (if retry_count operation + 1 \<ge> max_retries operation
                              then ''failed'' else ''pending'')\<rparr>"

text \<open>
  The bound every stored operation keeps: \<^verbatim>\<open>queue_operation\<close> always enqueues
  with \<^verbatim>\<open>max_retries\<close> 3.
\<close>

definition retry_bounded :: "redis \<Rightarrow> bool" where
  "retry_bounded r =
     ((\<forall>k. \<forall>e \<in> set (zsets r k). max_retries (fst e) = 3 \<and> retry_count (fst e) < 3) \<and>
      (\<forall>k. \<forall>operation \<in> set (rlists r k). max_retries operation = 3 \<and> retry_count operation \<le> 3))"

section \<open>Example data\<close>

text \<open>One meeting with a 100 m geofence, one participant, and the states of a first visit.\<close>

definition m0 :: Meeting where
  "m0 = \<lparr>m_id = ''m1'', m_name = ''Downtown'', m_address = ''1 Main St'', m_lat = 40,
         m_lng = -74, radius_meters = 100, m_is_active = True\<rparr>"

definition near :: LocationData where
  "near = \<lparr>latitude = 40, longitude = -74, accuracy = Some 10, altitude = None,
           speed = None, heading = None\<rparr>"

definition far :: LocationData where
  "far = \<lparr>latitude = 41, longitude = -74, accuracy = Some 10, altitude = None,
          speed = None, heading = None\<rparr>"

definition db_empty :: database where
  "db_empty = \<lparr>meetings = [m0], sessions = [], events = []\<rparr>"

definition s1 :: Session where
  "s1 = new_session ''s1'' ''c1'' ''m1'' m0 None"

definition db_active :: database where
  "db_active = \<lparr>meetings = [m0], sessions = [s1], events = []\<rparr>"

definition ev1 :: SessionEvent where
  "ev1 = \<lparr>e_id = ''e1'', session_id = ''s1'', e_type = CHECK_IN, e_lat = 40, e_lng = -74,
          e_accuracy = Some 10, e_altitude = None, e_speed = None, e_heading = None,
          e_notes = None, location_flag = True\<rparr>"

definition db_checked_in :: database where
  "db_checked_in = \<lparr>meetings = [m0], sessions = [s1\<lparr>status := CHECKED_IN\<rparr>], events = [ev1]\<rparr>"


text \<open>Whether a call raised a \<^verbatim>\<open>ConflictError\<close>.\<close>

definition raises_conflict :: "'a outcome \<Rightarrow> bool" where
  "raises_conflict x = (case x of Raises (ConflictError msg) \<Rightarrow> True | _ \<Rightarrow> False)"

text \<open>Queued operations of user u1: a check-in for session s1 and an end of session s1.\<close>

definition no_data :: payload where
  "no_data = \<lparr>p_session_id = None, p_latitude = None, p_longitude = None, p_accuracy = None,
              p_altitude = None, p_speed = None, p_heading = None, p_notes = None,
              p_contact_id = None, p_meeting_id = None, p_reason = None\<rparr>"

definition check_in_data :: payload where
  "check_in_data = no_data\<lparr>p_session_id := Some ''s1'', p_latitude := Some 40,
                            p_longitude := Some (-74), p_accuracy := Some 10\<rparr>"

definition end_data :: payload where
  "end_data = no_data\<lparr>p_session_id := Some ''s1''\<rparr>"

definition t0 :: nat where
  "t0 = 1700000000000000"

definition op1 :: OfflineOperation where
  "op1 = new_operation ''o1'' t0 ''check_in'' check_in_data ''u1'' 1 3"

definition queue1 :: redis where
  "queue1 = snd (queue_operation ''o1'' t0 empty_redis ''check_in'' check_in_data ''u1'' 1)"

definition op2 :: OfflineOperation where
  "op2 = new_operation ''o2'' (t0 + 5000000) ''end_session'' end_data ''u1'' 5 3"

definition queue2 :: redis where
  "queue2 = snd (queue_operation ''o2'' (t0 + 5000000) queue1 ''end_session'' end_data ''u1'' 5)"

definition la1 :: nat where
  "la1 = t0 + 60000000"

text \<open>
  The check-in operation after some attempts, three later times, one pass of
  \<^verbatim>\<open>process_user_queue\<close> for user u1, and the queue after three passes in which the
  operation fails each time. In \<open>pass\<close> the clock is coarse: every operation of the pass
  reads the same time. In \<open>running_pass\<close> it advances by a microsecond from one
  operation to the next.
\<close>

definition attempt :: "nat option \<Rightarrow> int \<Rightarrow> string \<Rightarrow> OfflineOperation" where
  "attempt tm n st = op1\<lparr>last_attempt := tm, retry_count := n, op_status := st\<rparr>"

definition la2 :: nat where
  "la2 = t0 + 120000000"

definition la3 :: nat where
  "la3 = t0 + 180000000"

definition pass :: "nat \<Rightarrow> database \<times> redis \<Rightarrow> database \<times> redis" where
  "pass now st =
     snd (process_user_queue flat_geodesic any_uuid by_id (\<lambda>k. now) (\<lambda>k. ''e2'') ''u1'' 10
            (fst st) (snd st))"

definition running_pass :: "nat \<Rightarrow> database \<times> redis \<Rightarrow> database \<times> redis" where
  "running_pass now st =
     snd (process_user_queue flat_geodesic any_uuid by_id (\<lambda>k. now + k) (\<lambda>k. ''e2'') ''u1'' 10
            (fst st) (snd st))"

definition qstate :: "zset \<Rightarrow> OfflineOperation list \<Rightarrow> redis" where
  "qstate z f = \<lparr>zsets = (\<lambda>k. [])(''offline_queue:u1'' := z),
                 rlists = (\<lambda>k. [])(''offline_failed:u1'' := f)\<rparr>"

definition after_three_passes :: redis where
  "after_three_passes = snd (pass la3 (pass la2 (pass la1 (db_checked_in, queue1))))"

text \<open>
  A participant, a meeting, a session and three operations named by UUIDs, as
  \<^verbatim>\<open>UUID(...)\<close> requires of them; the meeting is in the database, no session is. The
  participant queues a check-in of priority 1 and, 5 seconds later, the start of a session
  at the meeting with priority 5.
\<close>

definition participant :: string where
  "participant = ''aaaaaaaa-aaaa-4aaa-8aaa-aaaaaaaaaaaa''"

definition town_hall :: string where
  "town_hall = ''bbbbbbbb-bbbb-4bbb-8bbb-bbbbbbbbbbbb''"

definition old_visit :: string where
  "old_visit = ''cccccccc-cccc-4ccc-8ccc-cccccccccccc''"

definition new_visit :: string where
  "new_visit = ''dddddddd-dddd-4ddd-8ddd-dddddddddddd''"

definition id1 :: string where
  "id1 = ''00000000-0000-4000-8000-000000000001''"

definition id2 :: string where
  "id2 = ''00000000-0000-4000-8000-000000000002''"

definition id3 :: string where
  "id3 = ''00000000-0000-4000-8000-000000000003''"

definition m_town :: Meeting where
  "m_town = m0\<lparr>m_id := town_hall\<rparr>"

definition db_town :: database where
  "db_town = \<lparr>meetings = [m_town], sessions = [], events = []\<rparr>"

definition visit_data :: payload where
  "visit_data = no_data\<lparr>p_session_id := Some old_visit, p_latitude := Some 40,
                         p_longitude := Some (-74), p_accuracy := Some 10\<rparr>"

definition start_data :: payload where
  "start_data = no_data\<lparr>p_contact_id := Some participant, p_meeting_id := Some town_hall\<rparr>"

definition op_visit :: OfflineOperation where
  "op_visit = new_operation id1 t0 ''check_in'' visit_data participant 1 3"

definition op_start :: OfflineOperation where
  "op_start = new_operation id2 (t0 + 5000000) ''create_session'' start_data participant 5 3"

definition queue_visit :: redis where
  "queue_visit = snd (queue_operation id1 t0 empty_redis ''check_in'' visit_data participant 1)"

definition queue_start :: redis where
  "queue_start =
     snd (queue_operation id2 (t0 + 5000000) queue_visit ''create_session'' start_data
            participant 5)"

text \<open>
  The same check-in of priority 1, a check-out of priority 1 queued 500,000 seconds later
  (within the 7 days after which an untouched queue expires), and the start of a session
  queued with priority 2, 1,000,001 seconds after the first.
\<close>

definition midway :: nat where
  "midway = t0 + 500000000000"

definition late :: nat where
  "late = t0 + 1000001000000"

definition op_mid :: OfflineOperation where
  "op_mid = new_operation id3 midway ''check_out'' visit_data participant 1 3"

definition op_urgent :: OfflineOperation where
  "op_urgent = new_operation id2 late ''create_session'' start_data participant 2 3"

definition queue3 :: redis where
  "queue3 =
     snd (queue_operation id2 late
            (snd (queue_operation id3 midway queue_visit ''check_out'' visit_data participant 1))
            ''create_session'' start_data participant 2)"
section \<open>Geofence verification\<close>






section \<open>The live-session invariant\<close>

lemma filter_map_le: "(\<And>x. P (g x) \<Longrightarrow> P x) \<Longrightarrow> length (filter P (map g xs)) \<le> length (filter P xs)"
  by (induction xs) auto

lemma filter_map_same: "(\<And>x. x \<in> set xs \<Longrightarrow> P (g x) = P x) \<Longrightarrow> length (filter P (map g xs)) = length (filter P xs)"
  by (induction xs) auto

lemma find_distinct_unique:
  "distinct (map s_id xs) \<Longrightarrow> find (\<lambda>s. s_id s = sid) xs = Some session \<Longrightarrow> x \<in> set xs \<Longrightarrow> s_id x = sid \<Longrightarrow> x = session"
  by (induction xs) (auto split: if_splits)

lemma update_session_ids:
  "(\<And>s. s_id (f s) = s_id s) \<Longrightarrow> map s_id (sessions (update_session sid f db)) = map s_id (sessions db)"
  by (simp add: update_session_def comp_def)

lemma update_session_not_live:
  assumes "\<And>s. contact_id (f s) = contact_id s" "\<And>s. \<not> is_live (f s)"
  shows "length (live_sessions (update_session sid f db) c) \<le> length (live_sessions db c)"
proof -
  have "length (filter (\<lambda>s. contact_id s = c \<and> is_live s)
           (map (\<lambda>s. if s_id s = sid then f s else s) (sessions db)))
        \<le> length (filter (\<lambda>s. contact_id s = c \<and> is_live s) (sessions db))"
    by (rule filter_map_le) (auto simp: assms split: if_splits)
  then show ?thesis by (simp add: live_sessions_def update_session_def)
qed

lemma update_session_stays_live:
  assumes "distinct (map s_id (sessions db))" "get_session db sid = Some session" "is_live session"
    and "\<And>s. contact_id (f s) = contact_id s" "\<And>s. is_live (f s)"
  shows "length (live_sessions (update_session sid f db) c) = length (live_sessions db c)"
proof -
  have u: "\<And>x. x \<in> set (sessions db) \<Longrightarrow> s_id x = sid \<Longrightarrow> is_live x"
  proof -
    fix x assume "x \<in> set (sessions db)" "s_id x = sid"
    then have "x = session"
      using find_distinct_unique[OF assms(1), of sid session x] assms(2)
      by (simp add: get_session_def)
    then show "is_live x" using assms(3) by simp
  qed
  have "length (filter (\<lambda>s. contact_id s = c \<and> is_live s)
           (map (\<lambda>s. if s_id s = sid then f s else s) (sessions db)))
        = length (filter (\<lambda>s. contact_id s = c \<and> is_live s) (sessions db))"
    by (rule filter_map_same) (auto simp: assms(4,5) u)
  then show ?thesis by (simp add: live_sessions_def update_session_def)
qed

lemma inv_update_not_live:
  assumes "session_inv db" "\<And>s. contact_id (f s) = contact_id s" "\<And>s. \<not> is_live (f s)" "\<And>s. s_id (f s) = s_id s"
  shows "session_inv (update_session sid f db)"
  unfolding session_inv_def
  using assms(1) update_session_ids[of f sid db, OF assms(4)] update_session_not_live[of f sid db, OF assms(2,3)]
  unfolding session_inv_def by (metis le_trans)

lemma inv_update_stays_live:
  assumes "session_inv db" "get_session db sid = Some session" "is_live session"
    "\<And>s. contact_id (f s) = contact_id s" "\<And>s. is_live (f s)" "\<And>s. s_id (f s) = s_id s"
  shows "session_inv (update_session sid f db)"
proof -
  have d: "distinct (map s_id (sessions db))" using assms(1) by (simp add: session_inv_def)
  show ?thesis
    unfolding session_inv_def
    using assms(1) update_session_ids[of f sid db, OF assms(6)]
      update_session_stays_live[of db sid session f, OF d assms(2,3,4,5)]
    unfolding session_inv_def by simp
qed

lemma inv_events [simp]: "session_inv (db\<lparr>events := es\<rparr>) = session_inv db"
  by (simp add: session_inv_def live_sessions_def)

lemma inv_meetings [simp]: "session_inv (db\<lparr>meetings := ms\<rparr>) = session_inv db"
  by (simp add: session_inv_def live_sessions_def)

lemma create_session_event_sessions:
  "create_session_event geo uid db sid et loc mid notes = (res, db1) \<Longrightarrow> \<exists>es. db1 = db\<lparr>events := es\<rparr>"
  unfolding create_session_event_def add_event_def
  by (auto simp: Let_def split: if_splits option.splits intro: exI[of _ "events db"] exI[of _ "events db @ [e]" for e])


lemma get_active_session_Some:
  "get_active_session db cid = Some s \<Longrightarrow> live_sessions db cid = [s]"
  by (auto simp: get_active_session_def split: list.splits)

lemma get_active_session_None:
  "session_inv db \<Longrightarrow> get_active_session db cid = None \<Longrightarrow> live_sessions db cid = []"
proof -
  assume i: "session_inv db" and n: "get_active_session db cid = None"
  have "length (live_sessions db cid) \<le> 1" using i by (simp add: session_inv_def)
  then show ?thesis using n
    by (cases "live_sessions db cid") (auto simp: get_active_session_def split: list.splits)
qed

lemma live_sessions_member:
  "s \<in> set (live_sessions db cid) = (s \<in> set (sessions db) \<and> contact_id s = cid \<and> is_live s)"
  by (auto simp: live_sessions_def)

lemma ended_none_live:
  assumes "live_sessions db cid = [existing]"
  shows "live_sessions (update_session (s_id existing) (\<lambda>s. s\<lparr>status := ENDED, is_complete := True\<rparr>) db) cid = []"
proof -
  have only: "\<And>x. x \<in> set (sessions db) \<Longrightarrow> contact_id x = cid \<Longrightarrow> is_live x \<Longrightarrow> x = existing"
    using assms live_sessions_member[of _ db cid] by simp
  show ?thesis
    unfolding live_sessions_def update_session_def
    by (auto simp: filter_empty_conv is_live_def dest: only)
qed

lemma add_session_inv:
  assumes "session_inv db" "live_sessions db (contact_id s) = []" "add_session s db = Some db2"
  shows "session_inv db2"
proof -
  have fresh: "s_id s \<notin> s_id ` set (sessions db)" and db2: "db2 = db\<lparr>sessions := sessions db @ [s]\<rparr>"
    using assms(3) by (auto simp: add_session_def split: if_splits)
  have d: "distinct (map s_id (sessions db2))"
    using assms(1) fresh by (simp add: db2 session_inv_def)
  have l: "\<And>c. length (live_sessions db2 c) \<le> 1"
  proof -
    fix c
    have old: "length (live_sessions db c) \<le> 1" using assms(1) by (simp add: session_inv_def)
    show "length (live_sessions db2 c) \<le> 1"
    proof (cases "c = contact_id s")
      case True
      then have "filter (\<lambda>x. contact_id x = c \<and> is_live x) (sessions db) = []"
        using assms(2) by (simp add: live_sessions_def)
      then show ?thesis by (simp add: db2 live_sessions_def)
    next
      case False
      then show ?thesis using old by (simp add: db2 live_sessions_def)
    qed
  qed
  show ?thesis using d l by (simp add: session_inv_def)
qed

lemma end_existing_inv: "session_inv db \<Longrightarrow> session_inv (end_existing_session db cid)"
  unfolding end_existing_session_def
  by (auto split: option.splits intro!: inv_update_not_live simp: is_live_def)

lemma end_existing_none_live:
  "session_inv db \<Longrightarrow> live_sessions (end_existing_session db cid) cid = []"
  unfolding end_existing_session_def
  by (auto split: option.splits dest: get_active_session_None get_active_session_Some ended_none_live)

lemma create_session_inv:
  assumes "session_inv db"
  shows "session_inv (snd (create_session uid db cid mid notes))"
proof (cases "find (\<lambda>m. m_id m = mid \<and> m_is_active m) (meetings db)")
  case None
  then show ?thesis using assms by (simp add: create_session_def split: option.splits)
next
  case (Some meeting)
  let ?db1 = "end_existing_session db cid"
  let ?s = "new_session uid cid mid meeting notes"
  have r: "snd (create_session uid db cid mid notes) =
      (case add_session ?s ?db1 of None \<Rightarrow> ?db1 | Some db2 \<Rightarrow> db2)"
    using Some by (simp add: create_session_def Let_def split: option.splits)
  show ?thesis
  proof (cases "add_session ?s ?db1")
    case None
    then show ?thesis using r end_existing_inv[OF assms] by simp
  next
    case (Some db2)
    have "session_inv db2"
      by (rule add_session_inv[OF end_existing_inv[OF assms] _ Some])
         (simp add: new_session_def end_existing_none_live[OF assms])
    then show ?thesis using r Some by simp
  qed
qed

lemma create_general_session_inv:
  assumes "session_inv db"
  shows "session_inv (snd (create_general_session uid db cid notes))"
proof (cases "get_active_session db cid")
  case (Some s)
  then show ?thesis using assms by (simp add: create_general_session_def)
next
  case None
  let ?s = "general_session uid cid notes"
  have e: "live_sessions db cid = []" using get_active_session_None[OF assms None] .
  have r: "snd (create_general_session uid db cid notes) =
      (case add_session ?s db of None \<Rightarrow> db | Some db2 \<Rightarrow> db2)"
    using None by (simp add: create_general_session_def Let_def split: option.splits)
  show ?thesis
  proof (cases "add_session ?s db")
    case None
    then show ?thesis using r assms by simp
  next
    case (Some db2)
    have "session_inv db2"
      by (rule add_session_inv[OF assms _ Some]) (simp add: general_session_def e)
    then show ?thesis using r Some by simp
  qed
qed

lemma get_session_events [simp]: "get_session (db\<lparr>events := es\<rparr>) sid = get_session db sid"
  by (simp add: get_session_def)

lemma check_in_inv:
  assumes "session_inv db"
  shows "session_inv (snd (check_in geo uid db sid loc notes))"
proof (cases "get_session db sid")
  case None
  then show ?thesis using assms by (simp add: check_in_def)
next
  case (Some session)
  show ?thesis
  proof (cases "status session = ACTIVE")
    case False
    then show ?thesis using Some assms by (simp add: check_in_def)
  next
    case True
    have step: "\<And>es. session_inv (update_session sid (\<lambda>s. s\<lparr>status := CHECKED_IN\<rparr>) (db\<lparr>events := es\<rparr>))"
      by (rule inv_update_stays_live[where session = session])
         (use assms Some True in \<open>auto simp: is_live_def\<close>)
    show ?thesis
      using Some True assms step
      by (auto simp: check_in_def Let_def split: option.splits prod.splits
               dest!: create_session_event_sessions)
  qed
qed

lemma check_out_inv:
  assumes "session_inv db"
  shows "session_inv (snd (check_out geo uid db sid loc notes))"
proof -
  have step: "\<And>es. session_inv (update_session sid (\<lambda>s. s\<lparr>status := COMPLETED\<rparr>) (db\<lparr>events := es\<rparr>))"
    by (rule inv_update_not_live) (use assms in \<open>auto simp: is_live_def\<close>)
  show ?thesis
    using assms step
    by (auto simp: check_out_def Let_def split: option.splits prod.splits if_splits
             dest!: create_session_event_sessions)
qed

lemma end_session_inv:
  assumes "session_inv db"
  shows "session_inv (snd (end_session db sid reason))"
proof -
  have step: "session_inv (update_session sid (\<lambda>s. s\<lparr>status := ENDED,
                     session_notes := Some (ended_notes (session_notes s) reason)\<rparr>) db)"
    by (rule inv_update_not_live) (use assms in \<open>auto simp: is_live_def\<close>)
  show ?thesis using assms step by (auto simp: end_session_def split: option.splits)
qed

lemma reachable_inv: "reachable geo db \<Longrightarrow> session_inv db"
proof (induction rule: reachable.induct)
  case (no_sessions db)
  then show ?case by (simp add: session_inv_def live_sessions_def)
qed (simp_all add: create_session_inv create_general_session_inv check_in_inv check_out_inv end_session_inv)

section \<open>Session lifecycle\<close>

lemma ex_create: "create_session ''s1'' db_empty ''c1'' ''m1'' None = (Returns s1, db_active)"
  by (simp add: create_session_def db_empty_def m0_def end_existing_session_def get_active_session_def
      live_sessions_def add_session_def s1_def db_active_def Let_def)

lemma ex_check_in: "check_in flat_geodesic ''e1'' db_active ''s1'' near None = (Returns (Some ev1), db_checked_in)"
  by (simp add: check_in_def db_active_def s1_def new_session_def m0_def get_session_def get_meeting_def
      str_of_id_def verify_location_def flat_geodesic_def required_radius_def max_radius_meters_def
      near_def create_session_event_def add_event_def update_session_def ev1_def db_checked_in_def Let_def)

lemma ex_far: "check_in flat_geodesic uid db_active ''s1'' far None = (Returns None, db_active)"
  by (simp add: check_in_def db_active_def s1_def new_session_def m0_def get_session_def get_meeting_def
      str_of_id_def verify_location_def flat_geodesic_def required_radius_def max_radius_meters_def
      far_def is_test_meeting_def Let_def)

lemma reach_empty: "reachable flat_geodesic db_empty"
  by (rule reachable.no_sessions) (simp add: db_empty_def)

lemma reach_active: "reachable flat_geodesic db_active"
  using reachable.by_create_session[OF reach_empty, of "''s1''" "''c1''" "''m1''" None]
  by (simp add: ex_create)

lemma reach_checked_in: "reachable flat_geodesic db_checked_in"
  using reachable.by_check_in[OF reach_active, of "''e1''" "''s1''" near None]
  by (simp add: ex_check_in)

lemma create_session_returns:
  assumes "session_inv db" "create_session uid db cid mid notes = (Returns new, db')"
  shows "live_sessions db' cid = [new]"
proof -
  obtain meeting where m: "find (\<lambda>m. m_id m = mid \<and> m_is_active m) (meetings db) = Some meeting"
    using assms(2) by (cases "find (\<lambda>m. m_id m = mid \<and> m_is_active m) (meetings db)")
                       (auto simp: create_session_def split: option.splits)
  let ?db1 = "end_existing_session db cid"
  have a: "add_session (new_session uid cid mid meeting notes) ?db1 = Some db'"
    and n: "new = new_session uid cid mid meeting notes"
    using assms(2) m by (auto simp: create_session_def Let_def split: option.splits)
  have db': "db' = ?db1\<lparr>sessions := sessions ?db1 @ [new]\<rparr>"
    using a n by (auto simp: add_session_def split: if_splits)
  have "live_sessions ?db1 cid = []" by (rule end_existing_none_live[OF assms(1)])
  then show ?thesis
    by (simp add: db' live_sessions_def n new_session_def is_live_def)
qed

text \<open>
  Claim C1. In every state the core operations can reach, a participant has at most one
  session that is \<open>ACTIVE\<close> or \<open>CHECKED_IN\<close>; after \<^verbatim>\<open>create_session\<close> that
  still holds, and when it returns a session, that new session is the participant's only
  live one: a prior live session was ended first.
\<close>

theorem at_most_one_live_session:
  assumes "reachable geo db"
  shows "length (live_sessions db cid) \<le> 1
       \<and> length (live_sessions (snd (create_session uid db cid mid notes)) cid) \<le> 1
       \<and> (fst (create_session uid db cid mid notes) = Returns new \<longrightarrow>
            live_sessions (snd (create_session uid db cid mid notes)) cid = [new])"
proof -
  have i: "session_inv db" by (rule reachable_inv[OF assms])
  have i2: "session_inv (snd (create_session uid db cid mid notes))" by (rule create_session_inv[OF i])
  have "fst (create_session uid db cid mid notes) = Returns new \<longrightarrow>
            live_sessions (snd (create_session uid db cid mid notes)) cid = [new]"
    using create_session_returns[OF i, where uid = uid and cid = cid and mid = mid and ?notes = "notes"
        and new = new and db' = "snd (create_session uid db cid mid notes)"]
    by (metis prod.collapse)
  then show ?thesis using i i2 by (simp add: session_inv_def)
qed

theorem at_most_one_live_session_witness:
  "length (live_sessions db_checked_in ''c1'') \<le> 1
   \<and> live_sessions db_checked_in ''c1'' = [s1\<lparr>status := CHECKED_IN\<rparr>]
   \<and> fst (create_session ''s2'' db_checked_in ''c1'' ''m1'' None) = Returns (new_session ''s2'' ''c1'' ''m1'' m0 None)
   \<and> live_sessions (snd (create_session ''s2'' db_checked_in ''c1'' ''m1'' None)) ''c1''
       = [new_session ''s2'' ''c1'' ''m1'' m0 None]"
proof -
  have f: "fst (create_session ''s2'' db_checked_in ''c1'' ''m1'' None) = Returns (new_session ''s2'' ''c1'' ''m1'' m0 None)"
    by (simp add: create_session_def db_checked_in_def m0_def end_existing_session_def get_active_session_def
      live_sessions_def add_session_def s1_def new_session_def update_session_def is_live_def Let_def)
  have l: "live_sessions db_checked_in ''c1'' = [s1\<lparr>status := CHECKED_IN\<rparr>]"
    by (simp add: live_sessions_def db_checked_in_def s1_def new_session_def is_live_def)
  show ?thesis
    using at_most_one_live_session[OF reach_checked_in, of "''c1''" "''s2''" "''m1''" None
        "new_session ''s2'' ''c1'' ''m1'' m0 None"] f l
    by simp
qed

text \<open>
  Claim C5, as amended. Check-in on a session whose status is not \<open>ACTIVE\<close> returns
  \<^verbatim>\<open>None\<close> and leaves the sessions, the events and the meetings as they were. It
  raises nothing: the result is the one an unknown session id or an out-of-range location
  gives.
\<close>

theorem check_in_non_active_returns_none:
  assumes "get_session db sid = Some session" and "status session \<noteq> ACTIVE"
  shows "check_in geo uid db sid location_data notes = (Returns None, db)"
  using assms by (simp add: check_in_def)

theorem check_in_non_active_returns_none_witness:
  "check_in flat_geodesic ''e2'' db_checked_in ''s1'' near None = (Returns None, db_checked_in)"
proof -
  have g: "get_session db_checked_in ''s1'' = Some (s1\<lparr>status := CHECKED_IN\<rparr>)"
    by (simp add: get_session_def db_checked_in_def s1_def new_session_def)
  have n: "status (s1\<lparr>status := CHECKED_IN\<rparr>) \<noteq> ACTIVE" by simp
  show ?thesis using check_in_non_active_returns_none[OF g n] .
qed

text \<open>
  Claim C5 as stated fails: check-in on a \<open>CHECKED_IN\<close> session does not raise a
  \<^verbatim>\<open>ConflictError\<close>; it returns \<^verbatim>\<open>None\<close>, as it does for an unknown session and
  for a location out of range.
\<close>

theorem check_in_conflict_counterexample:
  "get_session db_checked_in ''s1'' = Some (s1\<lparr>status := CHECKED_IN\<rparr>)
   \<and> status (s1\<lparr>status := CHECKED_IN\<rparr>) \<noteq> ACTIVE
   \<and> fst (check_in flat_geodesic ''e2'' db_checked_in ''s1'' near None) = Returns None
   \<and> \<not> raises_conflict (fst (check_in flat_geodesic ''e2'' db_checked_in ''s1'' near None))
   \<and> fst (check_in flat_geodesic ''e2'' db_checked_in ''s9'' near None) = Returns None
   \<and> fst (check_in flat_geodesic ''e2'' db_active ''s1'' far None) = Returns None"
proof -
  have g: "get_session db_checked_in ''s1'' = Some (s1\<lparr>status := CHECKED_IN\<rparr>)"
    by (simp add: get_session_def db_checked_in_def s1_def new_session_def)
  have a: "check_in flat_geodesic ''e2'' db_checked_in ''s1'' near None = (Returns None, db_checked_in)"
    using g by (simp add: check_in_def)
  have b: "check_in flat_geodesic ''e2'' db_checked_in ''s9'' near None = (Returns None, db_checked_in)"
    by (simp add: check_in_def get_session_def db_checked_in_def s1_def new_session_def)
  show ?thesis using g a b ex_far[of "''e2''"] by (simp add: raises_conflict_def)
qed




lemma sole_live_is_active_session:
  assumes "session_inv db" "existing \<in> set (sessions db)" "contact_id existing = cid" "is_live existing"
  shows "get_active_session db cid = Some existing"
proof -
  have m: "existing \<in> set (live_sessions db cid)"
    using assms(2,3,4) by (simp add: live_sessions_member)
  have "length (live_sessions db cid) \<le> 1" using assms(1) by (simp add: session_inv_def)
  then have "live_sessions db cid = [existing]"
    using m by (cases "live_sessions db cid") auto
  then show ?thesis by (simp add: get_active_session_def)
qed

lemma find_updated_row:
  assumes "distinct (map s_id xs)" "x \<in> set xs" "\<And>s. s_id (f s) = s_id s"
  shows "find (\<lambda>s. s_id s = s_id x) (map (\<lambda>s. if s_id s = s_id x then f s else s) xs @ ys) = Some (f x)"
  using assms(1,2)
proof (induction xs)
  case Nil
  then show ?case by simp
next
  case (Cons a xs)
  show ?case
  proof (cases "s_id a = s_id x")
    case True
    then have "a = x" using Cons.prems by (auto simp: image_iff)
    then show ?thesis by (simp add: assms(3))
  next
    case False
    then show ?thesis using Cons by auto
  qed
qed

text \<open>
  Claim C6, as amended. In a reachable state, when the participant has a live session, the
  meeting is found active and the drawn id is new, \<^verbatim>\<open>create_session\<close> sets the prior
  session to \<open>ENDED\<close> (and complete), appends the new session in \<open>ACTIVE\<close> status with
  the meeting's name, address, latitude and longitude, and leaves the events as they were:
  no event is written for the prior session.
\<close>

theorem create_session_ends_prior_session:
  assumes "reachable geo db"
      and "existing \<in> set (sessions db)" and "contact_id existing = cid" and "is_live existing"
      and "find (\<lambda>m. m_id m = mid \<and> m_is_active m) (meetings db) = Some meeting"
      and "uid \<notin> s_id ` set (sessions db)"
  shows "create_session uid db cid mid notes =
           (Returns (new_session uid cid mid meeting notes),
            db\<lparr>sessions :=
                 map (\<lambda>s. if s_id s = s_id existing
                           then s\<lparr>status := ENDED, is_complete := True\<rparr> else s) (sessions db)
                 @ [new_session uid cid mid meeting notes]\<rparr>)
       \<and> get_session (snd (create_session uid db cid mid notes)) (s_id existing)
           = Some (existing\<lparr>status := ENDED, is_complete := True\<rparr>)
       \<and> events (snd (create_session uid db cid mid notes)) = events db
       \<and> status (new_session uid cid mid meeting notes) = ACTIVE
       \<and> dest_name (new_session uid cid mid meeting notes) = m_name meeting
       \<and> dest_address (new_session uid cid mid meeting notes) = m_address meeting
       \<and> dest_lat (new_session uid cid mid meeting notes) = m_lat meeting
       \<and> dest_lng (new_session uid cid mid meeting notes) = m_lng meeting"
proof -
  have i: "session_inv db" by (rule reachable_inv[OF assms(1)])
  have d: "distinct (map s_id (sessions db))" using i by (simp add: session_inv_def)
  have g: "get_active_session db cid = Some existing"
    by (rule sole_live_is_active_session[OF i assms(2,3,4)])
  let ?g = "\<lambda>s. if s_id s = s_id existing then s\<lparr>status := ENDED, is_complete := True\<rparr> else s"
  let ?new = "new_session uid cid mid meeting notes"
  have e: "end_existing_session db cid = db\<lparr>sessions := map ?g (sessions db)\<rparr>"
    using g by (simp add: end_existing_session_def update_session_def)
  have "map s_id (map ?g (sessions db)) = map s_id (sessions db)"
    by (induction "sessions db") auto
  then have ids: "s_id ` set (map ?g (sessions db)) = s_id ` set (sessions db)"
    by (metis image_set)
  have a: "add_session ?new (db\<lparr>sessions := map ?g (sessions db)\<rparr>)
             = Some (db\<lparr>sessions := map ?g (sessions db) @ [?new]\<rparr>)"
    using assms(6) ids by (simp add: add_session_def new_session_def)
  have c: "create_session uid db cid mid notes =
             (Returns ?new, db\<lparr>sessions := map ?g (sessions db) @ [?new]\<rparr>)"
    using assms(5) e a by (simp add: create_session_def Let_def)
  have f: "get_session (db\<lparr>sessions := map ?g (sessions db) @ [?new]\<rparr>) (s_id existing)
             = Some (existing\<lparr>status := ENDED, is_complete := True\<rparr>)"
    using find_updated_row[OF d assms(2), where f = "\<lambda>s. s\<lparr>status := ENDED, is_complete := True\<rparr>"
                              and ys = "[?new]"]
    by (simp add: get_session_def)
  show ?thesis using c f by (simp add: new_session_def)
qed

theorem create_session_ends_prior_session_witness:
  "create_session ''s2'' db_checked_in ''c1'' ''m1'' None =
     (Returns (new_session ''s2'' ''c1'' ''m1'' m0 None),
      \<lparr>meetings = [m0],
       sessions = [s1\<lparr>status := ENDED, is_complete := True\<rparr>, new_session ''s2'' ''c1'' ''m1'' m0 None],
       events = [ev1]\<rparr>)"
proof -
  have a: "s1\<lparr>status := CHECKED_IN\<rparr> \<in> set (sessions db_checked_in)" by (simp add: db_checked_in_def)
  have b: "contact_id (s1\<lparr>status := CHECKED_IN\<rparr>) = ''c1''" by (simp add: s1_def new_session_def)
  have c: "is_live (s1\<lparr>status := CHECKED_IN\<rparr>)" by (simp add: is_live_def)
  have d: "find (\<lambda>m. m_id m = ''m1'' \<and> m_is_active m) (meetings db_checked_in) = Some m0"
    by (simp add: db_checked_in_def m0_def)
  have e: "''s2'' \<notin> s_id ` set (sessions db_checked_in)"
    by (simp add: db_checked_in_def s1_def new_session_def)
  show ?thesis
    using create_session_ends_prior_session[OF reach_checked_in a b c d e, where ?notes = None]
    by (simp add: db_checked_in_def s1_def new_session_def)
qed

text \<open>
  Claim C6 as stated fails: starting a session for a participant whose session is
  \<open>CHECKED_IN\<close> appends no \<open>STATUS_CHANGE\<close> event; the events are those from before.
\<close>

theorem no_status_change_event_counterexample:
  "is_live (s1\<lparr>status := CHECKED_IN\<rparr>)
   \<and> fst (create_session ''s2'' db_checked_in ''c1'' ''m1'' None) = Returns (new_session ''s2'' ''c1'' ''m1'' m0 None)
   \<and> events (snd (create_session ''s2'' db_checked_in ''c1'' ''m1'' None)) = [ev1]
   \<and> e_type ev1 = CHECK_IN
   \<and> filter (\<lambda>e. e_type e = STATUS_CHANGE) (events (snd (create_session ''s2'' db_checked_in ''c1'' ''m1'' None))) = []"
  by (simp add: create_session_def db_checked_in_def m0_def end_existing_session_def get_active_session_def
      live_sessions_def add_session_def s1_def new_session_def update_session_def is_live_def Let_def ev1_def)

text \<open>
  Claim C10. In a reachable state, \<^verbatim>\<open>create_general_session\<close> for a participant with a
  live session returns that session and changes nothing. For a participant with no live
  session (and a new id) it appends a new session, which is \<open>ACTIVE\<close>, has no meeting, and
  has the destination "General Session" at latitude 0, longitude 0.
\<close>

theorem create_general_session_returns_existing_or_creates:
  "(reachable geo db \<and> existing \<in> set (sessions db) \<and> contact_id existing = cid \<and> is_live existing
      \<longrightarrow> create_general_session uid db cid notes = (Returns existing, db))
   \<and> (live_sessions db cid = [] \<and> uid \<notin> s_id ` set (sessions db)
      \<longrightarrow> create_general_session uid db cid notes =
            (Returns (general_session uid cid notes),
             db\<lparr>sessions := sessions db @ [general_session uid cid notes]\<rparr>))
   \<and> status (general_session uid cid notes) = ACTIVE
   \<and> meeting_id (general_session uid cid notes) = None
   \<and> dest_name (general_session uid cid notes) = ''General Session''
   \<and> dest_lat (general_session uid cid notes) = 0
   \<and> dest_lng (general_session uid cid notes) = 0"
proof -
  have p1: "reachable geo db \<and> existing \<in> set (sessions db) \<and> contact_id existing = cid \<and> is_live existing
      \<longrightarrow> create_general_session uid db cid notes = (Returns existing, db)"
  proof
    assume h: "reachable geo db \<and> existing \<in> set (sessions db) \<and> contact_id existing = cid \<and> is_live existing"
    then have "get_active_session db cid = Some existing"
      using sole_live_is_active_session[OF reachable_inv, of geo db existing cid] by blast
    then show "create_general_session uid db cid notes = (Returns existing, db)"
      by (simp add: create_general_session_def)
  qed
  have p2: "live_sessions db cid = [] \<and> uid \<notin> s_id ` set (sessions db)
      \<longrightarrow> create_general_session uid db cid notes =
            (Returns (general_session uid cid notes),
             db\<lparr>sessions := sessions db @ [general_session uid cid notes]\<rparr>)"
    by (simp add: create_general_session_def get_active_session_def add_session_def Let_def
        general_session_def)
  show ?thesis using p1 p2 by (simp add: general_session_def)
qed

theorem create_general_session_returns_existing_or_creates_witness:
  "create_general_session ''s2'' db_checked_in ''c1'' None = (Returns (s1\<lparr>status := CHECKED_IN\<rparr>), db_checked_in)
   \<and> create_general_session ''s2'' db_checked_in ''c2'' None =
        (Returns (general_session ''s2'' ''c2'' None),
         db_checked_in\<lparr>sessions := sessions db_checked_in @ [general_session ''s2'' ''c2'' None]\<rparr>)"
proof -
  have a: "s1\<lparr>status := CHECKED_IN\<rparr> \<in> set (sessions db_checked_in)" by (simp add: db_checked_in_def)
  have b: "contact_id (s1\<lparr>status := CHECKED_IN\<rparr>) = ''c1''" by (simp add: s1_def new_session_def)
  have c: "is_live (s1\<lparr>status := CHECKED_IN\<rparr>)" by (simp add: is_live_def)
  have d: "live_sessions db_checked_in ''c2'' = []"
    by (simp add: live_sessions_def db_checked_in_def s1_def new_session_def)
  have e: "''s2'' \<notin> s_id ` set (sessions db_checked_in)"
    by (simp add: db_checked_in_def s1_def new_session_def)
  show ?thesis
    using create_general_session_returns_existing_or_creates
            [where geo = flat_geodesic and db = db_checked_in and existing = "s1\<lparr>status := CHECKED_IN\<rparr>"
               and cid = "''c1''" and uid = "''s2''" and ?notes = None]
          create_general_session_returns_existing_or_creates
            [where geo = flat_geodesic and db = db_checked_in and existing = "s1"
               and cid = "''c2''" and uid = "''s2''" and ?notes = None]
          reach_checked_in a b c d e
    by simp
qed

section \<open>Offline queue\<close>

lemmas queue_defs = queue_operation_def new_operation_def zadd_def score_def queue_key_def
  failed_key_def empty_redis_def get_pending_operations_def zrevrange_def zrev_sorted_def
  redis_range_def before_def by_id_def Let_def

lemma queue1_members: "zsets queue1 ''offline_queue:u1'' = [(op1, score op1)]"
  by (simp add: queue1_def op1_def queue_defs)




lemma check_in_not_active: "get_session db sid = Some session \<Longrightarrow> status session \<noteq> ACTIVE \<Longrightarrow>
   check_in geo uid db sid location_data notes = (Returns None, db)"
  by (simp add: check_in_def)




subsection \<open>Removal and retry bookkeeping\<close>

lemma queue2_members: "zsets queue2 ''offline_queue:u1'' = [(op2, score op2), (op1, score op1)]"
  by (simp add: queue2_def queue_operation_def zadd_def queue_key_def queue1_members op2_def op1_def new_operation_def Let_def)

lemma key_op1_op2: "score op1 < score op2"
  by (simp add: score_def op1_def op2_def new_operation_def t0_def)

lemma queue2_listing: "get_pending_operations by_id queue2 ''u1'' 50 = [op2, op1]"
  using key_op1_op2
  by (simp add: get_pending_operations_def zrevrange_def zrev_sorted_def redis_range_def queue_key_def queue2_members before_def)

lemma queue_visit_members:
  "zsets queue_visit (queue_key participant) = [(op_visit, score op_visit)]"
  by (simp add: queue_visit_def queue_operation_def zadd_def op_visit_def empty_redis_def Let_def)

lemma queue_start_members:
  "zsets queue_start (queue_key participant)
     = [(op_start, score op_start), (op_visit, score op_visit)]"
  by (simp add: queue_start_def queue_operation_def zadd_def queue_visit_members op_start_def
      op_visit_def new_operation_def id1_def id2_def Let_def)

lemma key_visit_start: "score op_visit < score op_start"
  by (simp add: score_def op_visit_def op_start_def new_operation_def t0_def)

lemma queue_start_listing:
  "get_pending_operations by_id queue_start participant 50 = [op_start, op_visit]"
  "get_pending_operations by_id queue_start participant 1 = [op_start]"
  using key_visit_start
  by (simp_all add: get_pending_operations_def zrevrange_def zrev_sorted_def redis_range_def
      queue_start_members before_def)

lemma uuid_examples:
  "canonical_uuid participant = Some participant" "canonical_uuid town_hall = Some town_hall"
  "canonical_uuid old_visit = Some old_visit" "canonical_uuid ''s1'' = None"
  by (simp_all add: canonical_uuid_def uuid_shape_def is_hex_def participant_def town_hall_def
      old_visit_def)

lemma start_ok:
  "create_session new_visit db_town participant town_hall None
     = (Returns (new_session new_visit participant town_hall m_town None),
        db_town\<lparr>sessions := [new_session new_visit participant town_hall m_town None]\<rparr>)"
  by (simp add: create_session_def db_town_def m_town_def m0_def end_existing_session_def
      get_active_session_def live_sessions_def add_session_def Let_def)

text \<open>
  Claim C9 fails on the code. A participant has two operations queued, a check-in and the
  start of a session. Processing the start of the session succeeds: the session is created.
  Afterwards the participant's pending set is empty: \<^verbatim>\<open>_remove_operation\<close> removes
  every member of the sorted set, so the check-in is lost unprocessed. A batch of one
  operation does the same: it processes the start of the session only, and leaves nothing
  pending.
\<close>

theorem success_empties_pending_set:
  "get_pending_operations by_id queue_start participant 50 = [op_start, op_visit]
   \<and> operation_type op_start = ''create_session'' \<and> operation_type op_visit = ''check_in''
   \<and> fst (process_operation flat_geodesic canonical_uuid la1 new_visit op_start db_town queue_start)
   \<and> sessions (fst (snd (snd
          (process_operation flat_geodesic canonical_uuid la1 new_visit op_start db_town queue_start))))
       = [new_session new_visit participant town_hall m_town None]
   \<and> get_pending_operations by_id
        (snd (snd (snd
          (process_operation flat_geodesic canonical_uuid la1 new_visit op_start db_town queue_start))))
        participant 50 = []
   \<and> fst (process_user_queue flat_geodesic canonical_uuid by_id (\<lambda>k. la1 + k) (\<lambda>k. new_visit)
             participant 1 db_town queue_start) = (1, 0, 1)
   \<and> get_pending_operations by_id
        (snd (snd (process_user_queue flat_geodesic canonical_uuid by_id (\<lambda>k. la1 + k)
                     (\<lambda>k. new_visit) participant 1 db_town queue_start)))
        participant 50 = []"
proof -
  have n: "p_contact_id (op_data op_start) = Some participant"
    "p_meeting_id (op_data op_start) = Some town_hall" "p_notes (op_data op_start) = None"
    "operation_type op_start = ''create_session''" "user_id op_start = participant"
    "operation_type op_visit = ''check_in''"
    by (simp_all add: op_start_def op_visit_def new_operation_def start_data_def no_data_def)
  let ?done = "op_start\<lparr>last_attempt := Some la1, op_status := ''completed''\<rparr>"
  have p: "process_operation flat_geodesic canonical_uuid la1 new_visit op_start db_town queue_start =
     (True, ?done,
      db_town\<lparr>sessions := [new_session new_visit participant town_hall m_town None]\<rparr>,
      remove_operation ?done queue_start)"
    using n start_ok uuid_examples
    by (simp add: process_operation_def dispatch_def process_create_session_def parsed_id_def Let_def)
  have e: "get_pending_operations by_id (remove_operation ?done queue_start) participant 50 = []"
    using n by (simp add: remove_operation_def get_pending_operations_def zrevrange_def zrev_sorted_def
        redis_range_def)
  have u: "process_user_queue flat_geodesic canonical_uuid by_id (\<lambda>k. la1 + k) (\<lambda>k. new_visit)
             participant 1 db_town queue_start
           = ((1, 0, 1),
              db_town\<lparr>sessions := [new_session new_visit participant town_hall m_town None]\<rparr>,
              remove_operation ?done queue_start)"
    by (simp add: process_user_queue_def queue_start_listing p Let_def)
  show ?thesis using queue_start_listing(1) p e u n by simp
qed


lemma replay_fails:
  assumes "operation_type operation = ''check_in''"
      and "location_of (op_data operation) = Some location_data"
      and "parsed_id uuid (p_session_id (op_data operation)) = Some sid"
      and "get_session db sid = Some session" and "status session \<noteq> ACTIVE"
  shows "process_operation geo uuid now uid operation db r =
           (False, failed_attempt now operation, db,
            if retry_count operation + 1 \<ge> max_retries operation
            then move_to_failed (failed_attempt now operation) r
            else update_operation (failed_attempt now operation) r)"
proof -
  let ?op1 = "operation\<lparr>op_status := ''processing'', last_attempt := Some now\<rparr>"
  have c: "check_in geo uid db sid location_data (p_notes (op_data operation)) = (Returns None, db)"
    using check_in_not_active[OF assms(4)] assms(5) by simp
  have p: "process_check_in geo uuid uid ?op1 db = (False, db)"
    using assms(2,3) c by (simp add: process_check_in_def)
  have d: "dispatch geo uuid uid ?op1 db = Some (False, db)"
    using assms(1) p by (simp add: dispatch_def)
  show ?thesis
    using d by (simp add: process_operation_def Let_def failed_attempt_def)
qed

lemma attempt_fails:
  "process_operation flat_geodesic any_uuid now ''e2'' (attempt tm n st) db_checked_in r =
     (False, failed_attempt now (attempt tm n st), db_checked_in,
      if n + 1 \<ge> 3 then move_to_failed (failed_attempt now (attempt tm n st)) r
      else update_operation (failed_attempt now (attempt tm n st)) r)"
proof -
  have a: "operation_type (attempt tm n st) = ''check_in''"
    by (simp add: attempt_def op1_def new_operation_def)
  have b: "location_of (op_data (attempt tm n st)) = Some near"
    by (simp add: attempt_def op1_def new_operation_def location_of_def check_in_data_def no_data_def near_def)
  have c: "parsed_id any_uuid (p_session_id (op_data (attempt tm n st))) = Some ''s1''"
    by (simp add: attempt_def op1_def new_operation_def parsed_id_def any_uuid_def check_in_data_def no_data_def)
  have d: "get_session db_checked_in ''s1'' = Some (s1\<lparr>status := CHECKED_IN\<rparr>)"
    by (simp add: get_session_def db_checked_in_def s1_def new_session_def)
  have e: "status (s1\<lparr>status := CHECKED_IN\<rparr>) \<noteq> ACTIVE" by simp
  have f: "retry_count (attempt tm n st) = n" "max_retries (attempt tm n st) = 3"
    by (simp_all add: attempt_def op1_def new_operation_def)
  show ?thesis using replay_fails[OF a b c d e, of flat_geodesic now "''e2''" r] f by simp
qed

lemma failed_attempt_attempt:
  "failed_attempt now (attempt tm n st) = attempt (Some now) (n + 1) (if n + 1 \<ge> 3 then ''failed'' else ''pending'')"
  by (simp add: failed_attempt_def attempt_def op1_def new_operation_def)

lemma op1_attempt: "op1 = attempt None 0 ''pending''"
  by (simp add: attempt_def op1_def new_operation_def)


lemma attempt_eq [simp]:
  "(attempt tm n st = attempt tm' n' st') = (tm = tm' \<and> n = n' \<and> st = st')"
  by (auto simp: attempt_def op1_def new_operation_def)

lemma attempt_fields [simp]:
  "user_id (attempt tm n st) = ''u1''" "score (attempt tm n st) = score op1"
  "retry_count (attempt tm n st) = n" "op_id (attempt tm n st) = ''o1''"
  by (simp_all add: attempt_def op1_def new_operation_def score_def)

lemma queue1_qstate: "queue1 = qstate [(attempt None 0 ''pending'', score op1)] []"
  by (auto simp: queue1_def queue_operation_def zadd_def queue_key_def empty_redis_def qstate_def
      attempt_def op1_def new_operation_def Let_def fun_eq_iff)

lemma update_qstate:
  "update_operation (attempt tm n st) (qstate z f)
     = qstate ((attempt tm n st, score op1) # filter (\<lambda>e. fst e \<noteq> attempt tm n st) z) f"
  by (simp add: update_operation_def zadd_def queue_key_def qstate_def)

lemma failed_qstate:
  "move_to_failed (attempt tm n st) (qstate z f) = qstate z (attempt tm n st # f)"
  by (simp add: move_to_failed_def lpush_def failed_key_def qstate_def)

lemma pending_qstate:
  "get_pending_operations by_id (qstate z f) ''u1'' limit
     = map fst (redis_range (zrev_sorted by_id z) 0 (limit - 1))"
  by (simp add: get_pending_operations_def zrevrange_def queue_key_def qstate_def)

lemma failed_list_qstate:
  "get_failed_operations (qstate z f) ''u1'' limit = redis_range f 0 (limit - 1)"
  by (simp add: get_failed_operations_def lrange_def failed_key_def qstate_def)

lemma same_key_same_id [simp]: "before by_id (attempt tm n st, score op1) (attempt tm' n' st', score op1) = False"
  by (simp add: before_def by_id_def)

lemma pass_qstate:
  "pass now (db_checked_in, qstate z f) =
     snd (process_user_queue flat_geodesic any_uuid by_id (\<lambda>k. now) (\<lambda>k. ''e2'') ''u1'' 10
            db_checked_in (qstate z f))"
  by (simp add: pass_def)

lemmas pass_steps = pass_qstate process_user_queue_def pending_qstate zrev_sorted_def redis_range_def
  attempt_fails failed_attempt_attempt update_qstate failed_qstate Let_def

lemma times_differ [simp]: "la1 \<noteq> la2" "la1 \<noteq> la3" "la2 \<noteq> la3" "la2 \<noteq> la1" "la3 \<noteq> la1" "la3 \<noteq> la2"
  by (simp_all add: la1_def la2_def la3_def)

lemma first_pass: "pass la1 (db_checked_in, queue1) =
    (db_checked_in, qstate [(attempt (Some la1) 1 ''pending'', score op1), (attempt None 0 ''pending'', score op1)] [])"
  by (simp add: queue1_qstate pass_steps)

lemma second_pass: "pass la2 (pass la1 (db_checked_in, queue1)) =
    (db_checked_in, qstate [(attempt (Some la2) 2 ''pending'', score op1), (attempt (Some la2) 1 ''pending'', score op1),
       (attempt (Some la1) 1 ''pending'', score op1), (attempt None 0 ''pending'', score op1)] [])"
  by (simp add: first_pass pass_steps)

lemma third_pass: "pass la3 (pass la2 (pass la1 (db_checked_in, queue1))) =
    (db_checked_in, qstate [(attempt (Some la3) 2 ''pending'', score op1), (attempt (Some la3) 1 ''pending'', score op1),
       (attempt (Some la2) 2 ''pending'', score op1), (attempt (Some la2) 1 ''pending'', score op1),
       (attempt (Some la1) 1 ''pending'', score op1), (attempt None 0 ''pending'', score op1)]
       [attempt (Some la3) 3 ''failed''])"
  by (simp add: second_pass pass_steps)

lemma running_pass_qstate:
  "running_pass now (db_checked_in, qstate z f) =
     snd (process_user_queue flat_geodesic any_uuid by_id (\<lambda>k. now + k) (\<lambda>k. ''e2'') ''u1'' 10
            db_checked_in (qstate z f))"
  by (simp add: running_pass_def)

lemmas running_steps = running_pass_qstate process_user_queue_def pending_qstate zrev_sorted_def
  redis_range_def attempt_fails failed_attempt_attempt update_qstate failed_qstate Let_def

lemma later_times [simp]:
  "la1 \<noteq> Suc la2"
  "Suc la2 \<noteq> la1"
  "la1 \<noteq> Suc (Suc la2)"
  "Suc (Suc la2) \<noteq> la1"
  "la1 \<noteq> Suc (Suc (Suc la2))"
  "Suc (Suc (Suc la2)) \<noteq> la1"
  "la1 \<noteq> Suc la3"
  "Suc la3 \<noteq> la1"
  "la1 \<noteq> Suc (Suc la3)"
  "Suc (Suc la3) \<noteq> la1"
  "la1 \<noteq> Suc (Suc (Suc la3))"
  "Suc (Suc (Suc la3)) \<noteq> la1"
  "la2 \<noteq> Suc la1"
  "Suc la1 \<noteq> la2"
  "la2 \<noteq> Suc (Suc la1)"
  "Suc (Suc la1) \<noteq> la2"
  "la2 \<noteq> Suc (Suc (Suc la1))"
  "Suc (Suc (Suc la1)) \<noteq> la2"
  "la2 \<noteq> Suc la3"
  "Suc la3 \<noteq> la2"
  "la2 \<noteq> Suc (Suc la3)"
  "Suc (Suc la3) \<noteq> la2"
  "la2 \<noteq> Suc (Suc (Suc la3))"
  "Suc (Suc (Suc la3)) \<noteq> la2"
  "la3 \<noteq> Suc la1"
  "Suc la1 \<noteq> la3"
  "la3 \<noteq> Suc (Suc la1)"
  "Suc (Suc la1) \<noteq> la3"
  "la3 \<noteq> Suc (Suc (Suc la1))"
  "Suc (Suc (Suc la1)) \<noteq> la3"
  "la3 \<noteq> Suc la2"
  "Suc la2 \<noteq> la3"
  "la3 \<noteq> Suc (Suc la2)"
  "Suc (Suc la2) \<noteq> la3"
  "la3 \<noteq> Suc (Suc (Suc la2))"
  "Suc (Suc (Suc la2)) \<noteq> la3"
  by (simp_all add: la1_def la2_def la3_def)

lemma first_running_pass: "running_pass la1 (db_checked_in, queue1) =
    (db_checked_in, qstate [(attempt (Some la1) 1 ''pending'', score op1), (attempt None 0 ''pending'', score op1)] [])"
  by (simp add: queue1_qstate running_steps)

lemma second_running_pass: "running_pass la2 (running_pass la1 (db_checked_in, queue1)) =
    (db_checked_in, qstate [(attempt (Some (Suc la2)) 2 ''pending'', score op1), (attempt (Some la2) 1 ''pending'', score op1),
       (attempt (Some la1) 1 ''pending'', score op1), (attempt None 0 ''pending'', score op1)] [])"
  by (simp add: first_running_pass running_steps)

lemma third_running_pass: "running_pass la3 (running_pass la2 (running_pass la1 (db_checked_in, queue1))) =
    (db_checked_in, qstate [(attempt (Some (Suc (Suc la3))) 2 ''pending'', score op1),
       (attempt (Some (Suc la3)) 2 ''pending'', score op1),
       (attempt (Some la3) 1 ''pending'', score op1),
       (attempt (Some (Suc la2)) 2 ''pending'', score op1), (attempt (Some la2) 1 ''pending'', score op1),
       (attempt (Some la1) 1 ''pending'', score op1), (attempt None 0 ''pending'', score op1)]
       [attempt (Some (Suc (Suc (Suc la3)))) 3 ''failed''])"
  by (simp add: second_running_pass running_steps)

text \<open>
  With a clock that advances between two operations, no two records of the operation
  coincide: after the three passes the failed list holds it with retry count 3 and the
  pending set holds seven records of it.
\<close>

lemma advancing_clock_keeps_seven_records:
  "map retry_count
     (get_failed_operations
        (snd (running_pass la3 (running_pass la2 (running_pass la1 (db_checked_in, queue1)))))
        ''u1'' 50) = [3]
   \<and> sort (map retry_count
          (get_pending_operations by_id
             (snd (running_pass la3 (running_pass la2 (running_pass la1 (db_checked_in, queue1)))))
             ''u1'' 50))
       = [0, 1, 1, 1, 2, 2, 2]"
  by (simp add: third_running_pass pending_qstate failed_list_qstate zrev_sorted_def redis_range_def)


subsection \<open>Ordering of the pending set\<close>

lemma set_zinsert: "set (zinsert after x ys) = insert x (set ys)"
  by (induction ys) auto

lemma sorted_zinsert:
  "sorted_wrt (\<lambda>x y. snd y \<le> snd x) ys \<Longrightarrow> sorted_wrt (\<lambda>x y. snd y \<le> snd x) (zinsert after x ys)"
proof (induction ys)
  case Nil
  then show ?case by simp
next
  case (Cons y ys)
  show ?case
  proof (cases "before after x y")
    case True
    then have "snd y \<le> snd x" by (auto simp: before_def)
    then show ?thesis using True Cons.prems by auto
  next
    case False
    then have "snd x \<le> snd y" by (auto simp: before_def)
    then show ?thesis using False Cons by (auto simp: set_zinsert)
  qed
qed

lemma set_zrev_sorted: "set (zrev_sorted after z) = set z"
  unfolding zrev_sorted_def by (induction z) (auto simp: set_zinsert)

lemma sorted_zrev_sorted: "sorted_wrt (\<lambda>x y. snd y \<le> snd x) (zrev_sorted after z)"
  unfolding zrev_sorted_def by (induction z) (auto intro: sorted_zinsert)

lemma sorted_redis_range: "sorted_wrt R xs \<Longrightarrow> sorted_wrt R (redis_range xs start stop)"
  by (simp add: redis_range_def Let_def sorted_wrt_take sorted_wrt_drop)

lemma set_redis_range: "set (redis_range xs start stop) \<subseteq> set xs"
proof -
  have "set (take n (drop m xs)) \<subseteq> set xs" for n m
    by (meson set_drop_subset set_take_subset subset_trans)
  then show ?thesis by (auto simp: redis_range_def Let_def)
qed

lemma pending_sorted:
  assumes "scored r"
  shows "sorted_wrt (\<lambda>a b. score b \<le> score a) (get_pending_operations after r usr limit)"
proof -
  let ?xs = "zrevrange after r (queue_key usr) 0 (limit - 1)"
  have s: "sorted_wrt (\<lambda>x y. snd y \<le> snd x) ?xs"
    unfolding zrevrange_def by (rule sorted_redis_range[OF sorted_zrev_sorted])
  have m: "\<And>e. e \<in> set ?xs \<Longrightarrow> snd e = score (fst e)"
    using assms set_redis_range[of "zrev_sorted after (zsets r (queue_key usr))" 0 "limit - 1"]
    unfolding zrevrange_def scored_def by (auto simp: set_zrev_sorted)
  have "sorted_wrt (\<lambda>x y. score (fst y) \<le> score (fst x)) ?xs"
    by (rule sorted_wrt_mono_rel[OF _ s]) (simp add: m)
  then show ?thesis by (simp add: get_pending_operations_def sorted_wrt_map)
qed

lemma scored_zadd: "scored r \<Longrightarrow> scored (zadd k m (score m) r)"
proof -
  assume a: "scored r"
  have "\<And>k' e. e \<in> set (zsets (zadd k m (score m) r) k') \<Longrightarrow> snd e = score (fst e)"
  proof -
    fix k' e assume e: "e \<in> set (zsets (zadd k m (score m) r) k')"
    show "snd e = score (fst e)"
    proof (cases "k' = k")
      case True
      then have "e = (m, score m) \<or> e \<in> set (zsets r k)" using e by (auto simp: zadd_def)
      then show ?thesis using a by (auto simp: scored_def)
    next
      case False
      then have "e \<in> set (zsets r k')" using e by (simp add: zadd_def)
      then show ?thesis using a by (auto simp: scored_def)
    qed
  qed
  then show ?thesis by (simp add: scored_def)
qed

lemma scored_lists [simp]: "scored (r\<lparr>rlists := l\<rparr>) = scored r"
  by (simp add: scored_def)

lemma scored_remove: "scored r \<Longrightarrow> scored (remove_operation operation r)"
  by (simp add: scored_def remove_operation_def)

lemma scored_move: "scored r \<Longrightarrow> scored (move_to_failed operation r)"
  by (simp add: move_to_failed_def lpush_def)

lemma scored_update: "scored r \<Longrightarrow> scored (update_operation operation r)"
  by (simp add: update_operation_def scored_zadd)

lemma scored_process:
  "scored r \<Longrightarrow> scored (snd (snd (snd (process_operation geo uuid now uid operation db r))))"
  by (simp add: process_operation_def Let_def scored_remove scored_move scored_update
      split: option.splits prod.splits)

lemma scored_retry: "scored r \<Longrightarrow> scored (snd (retry_failed_operation r operation_id usr))"
  by (auto simp: retry_failed_operation_def Let_def lrem1_def intro!: scored_zadd split: option.splits)

lemma queue_state_scored: "queue_state geo uuid r \<Longrightarrow> scored r"
proof (induction rule: queue_state.induct)
  case nothing_queued
  then show ?case by (simp add: scored_def empty_redis_def)
next
  case (by_queue_operation r uid now otype data usr prio)
  then show ?case by (simp add: queue_operation_def Let_def scored_zadd)
next
  case (by_process_operation r operation usr now uid db)
  then show ?case by (simp add: scored_process)
next
  case (by_retry_failed_operation r operation_id usr)
  then show ?case by (simp add: scored_retry)
next
  case (by_clear_user_queue r usr)
  then show ?case by (auto simp: clear_user_queue_def scored_def)
qed

lemma key_by_priority:
  "priority b < priority a \<Longrightarrow>
   whole_seconds a - whole_seconds b < 1000000 * (priority a - priority b) \<Longrightarrow> score b < score a"
  by (simp add: score_def whole_seconds_def algebra_simps)

lemma key_by_age:
  "priority a = priority b \<Longrightarrow> whole_seconds a < whole_seconds b \<Longrightarrow> score b < score a"
  by (simp add: score_def whole_seconds_def)

lemma greater_key_first:
  assumes "sorted_wrt (\<lambda>a b. score b \<le> score a) ops" "i < length ops" "j < length ops"
    and "score (ops ! j) < score (ops ! i)"
  shows "i < j"
proof (rule ccontr)
  assume "\<not> i < j"
  then consider "i = j" | "j < i" by linarith
  then show False
  proof cases
    case 1
    then show ?thesis using assms(4) by simp
  next
    case 2
    then have "score (ops ! i) \<le> score (ops ! j)"
      using assms(1,2) by (simp add: sorted_wrt_iff_nth_less)
    then show ?thesis using assms(4) by simp
  qed
qed

text \<open>
  Property X4 (the part of claim C7 that holds). In every state of the queue store, of two
  operations in the listing of a user's pending operations the one with the strictly
  greater key \<open>priority * 1000000 - created_at\<close> (in whole seconds) comes first. So a
  higher priority comes first when the creation times differ by less than 1,000,000 seconds
  per step of priority, and of two operations of equal priority the one created in an
  earlier whole second comes first.
\<close>

theorem pending_order_follows_key:
  assumes "queue_state geo uuid r"
      and "ops = get_pending_operations after r usr limit"
      and "i < length ops" and "j < length ops"
  shows "(score (ops ! j) < score (ops ! i) \<longrightarrow> i < j)
       \<and> (priority (ops ! j) < priority (ops ! i)
            \<and> whole_seconds (ops ! i) - whole_seconds (ops ! j)
                < 1000000 * (priority (ops ! i) - priority (ops ! j)) \<longrightarrow> i < j)
       \<and> (priority (ops ! i) = priority (ops ! j)
            \<and> whole_seconds (ops ! i) < whole_seconds (ops ! j) \<longrightarrow> i < j)"
proof -
  have s: "sorted_wrt (\<lambda>a b. score b \<le> score a) ops"
    unfolding assms(2) by (rule pending_sorted[OF queue_state_scored[OF assms(1)]])
  have k: "score (ops ! j) < score (ops ! i) \<Longrightarrow> i < j"
    by (rule greater_key_first[OF s assms(3,4)])
  show ?thesis using k key_by_priority key_by_age by blast
qed


lemma queue1_state: "queue_state flat_geodesic any_uuid queue1"
  unfolding queue1_def by (rule queue_state.by_queue_operation[OF queue_state.nothing_queued])

lemma queue2_state: "queue_state flat_geodesic any_uuid queue2"
  unfolding queue2_def by (rule queue_state.by_queue_operation[OF queue1_state])

theorem pending_order_follows_key_witness:
  "get_pending_operations by_id queue2 ''u1'' 50 = [op2, op1]
   \<and> priority op1 = 1 \<and> priority op2 = 5
   \<and> whole_seconds op2 - whole_seconds op1 = 5
   \<and> (0::nat) < 1"
proof -
  have l: "(0::nat) < length [op2, op1]" "(1::nat) < length [op2, op1]" by simp_all
  have f: "priority op1 = 1" "priority op2 = 5" "whole_seconds op2 - whole_seconds op1 = 5"
    by (simp_all add: op1_def op2_def new_operation_def whole_seconds_def t0_def)
  show ?thesis
    using pending_order_follows_key[OF queue2_state queue2_listing[symmetric] l] queue2_listing f
    by simp
qed

lemma queue3_members:
  "zsets queue3 (queue_key participant)
     = [(op_urgent, score op_urgent), (op_mid, score op_mid), (op_visit, score op_visit)]"
  by (simp add: queue3_def queue_operation_def zadd_def queue_visit_members op_urgent_def
      op_mid_def op_visit_def new_operation_def id1_def id2_def id3_def Let_def)

lemma keys_queue3: "score op_urgent < score op_visit" "score op_mid < score op_urgent"
  by (simp_all add: score_def op_visit_def op_urgent_def op_mid_def new_operation_def t0_def
      late_def midway_def)

lemma bytes_less_irrefl [simp]: "\<not> bytes_less x x"
  by (induction x) simp_all

lemma queue3_listing:
  "get_pending_operations by_id queue3 participant 50 = [op_visit, op_urgent, op_mid]"
  "get_pending_operations by_id queue3 participant 1 = [op_visit]"
  using keys_queue3
  by (simp_all add: get_pending_operations_def zrevrange_def zrev_sorted_def redis_range_def
      queue3_members before_def)

lemma visit_fails:
  "process_operation flat_geodesic canonical_uuid now uid op_visit db_town r =
     (False, op_visit\<lparr>last_attempt := Some now, retry_count := 1, op_status := ''pending''\<rparr>,
      db_town,
      update_operation
        (op_visit\<lparr>last_attempt := Some now, retry_count := 1, op_status := ''pending''\<rparr>) r)"
proof -
  have b: "location_of (op_data op_visit) = Some near"
    by (simp add: op_visit_def new_operation_def location_of_def visit_data_def no_data_def near_def)
  have n: "p_notes (op_data op_visit) = None" "p_session_id (op_data op_visit) = Some old_visit"
    "operation_type op_visit = ''check_in''" "retry_count op_visit = 0" "max_retries op_visit = 3"
    by (simp_all add: op_visit_def new_operation_def visit_data_def no_data_def)
  have c: "check_in flat_geodesic uid db_town old_visit near None = (Returns None, db_town)"
    by (simp add: check_in_def get_session_def db_town_def)
  show ?thesis
    using b c n uuid_examples
    by (simp add: process_operation_def dispatch_def process_check_in_def parsed_id_def Let_def)
qed

text \<open>
  Claim C7 fails on the code. A participant queues a check-in of priority 1, a check-out
  of priority 1 some days later and, 1,000,001 seconds after the first, the start of a
  session with priority 2. The listing has the check-in of priority 1 before the operation
  of priority 2, and a batch of one operation processes the check-in: afterwards the
  check-in has one attempt on record and the operation of priority 2 none.
  \<^verbatim>\<open>queue_operation\<close> computes the key "for ordering" by priority and
  \<^verbatim>\<open>get_pending_operations\<close> lists "highest priority first"; the key
  \<open>priority * 1000000 - created_at\<close> lets 1,000,000 seconds of age outweigh a step of
  priority.
\<close>

theorem lower_priority_processed_first:
  "priority op_visit = 1 \<and> priority op_urgent = 2
   \<and> user_id op_visit = participant \<and> user_id op_urgent = participant
   \<and> whole_seconds op_urgent - whole_seconds op_visit = 1000001
   \<and> get_pending_operations by_id queue3 participant 50 = [op_visit, op_urgent, op_mid]
   \<and> fst (process_user_queue flat_geodesic canonical_uuid by_id (\<lambda>k. late + 60000000 + k)
             (\<lambda>k. new_visit) participant 1 db_town queue3) = (0, 1, 1)
   \<and> set (get_pending_operations by_id
             (snd (snd (process_user_queue flat_geodesic canonical_uuid by_id
                          (\<lambda>k. late + 60000000 + k) (\<lambda>k. new_visit) participant 1 db_town queue3)))
             participant 50)
       = {op_visit\<lparr>last_attempt := Some (late + 60000000), retry_count := 1,
                     op_status := ''pending''\<rparr>,
          op_visit, op_urgent, op_mid}"
proof -
  have f: "priority op_visit = 1" "priority op_urgent = 2" "user_id op_visit = participant"
    "user_id op_urgent = participant" "whole_seconds op_urgent - whole_seconds op_visit = 1000001"
    by (simp_all add: op_visit_def op_urgent_def new_operation_def whole_seconds_def late_def t0_def)
  let ?tried = "op_visit\<lparr>last_attempt := Some (late + 60000000), retry_count := 1,
                          op_status := ''pending''\<rparr>"
  have u: "process_user_queue flat_geodesic canonical_uuid by_id (\<lambda>k. late + 60000000 + k)
             (\<lambda>k. new_visit) participant 1 db_town queue3
           = ((0, 1, 1), db_town, update_operation ?tried queue3)"
    by (simp add: process_user_queue_def queue3_listing visit_fails Let_def)
  have s: "score ?tried = score op_visit" by (simp add: score_def)
  have d: "?tried \<noteq> op_visit" "op_urgent \<noteq> ?tried" "op_mid \<noteq> ?tried"
    by (simp_all add: op_visit_def op_urgent_def op_mid_def new_operation_def id1_def id2_def id3_def)
  have z: "zsets (update_operation ?tried queue3) (queue_key participant)
             = [(?tried, score op_visit), (op_urgent, score op_urgent), (op_mid, score op_mid),
                (op_visit, score op_visit)]"
    using d f s by (simp add: update_operation_def zadd_def queue3_members)
  have i: "by_id ?tried op_visit = False" by (simp add: by_id_def)
  have p: "get_pending_operations by_id (update_operation ?tried queue3) participant 50
             = [op_visit, ?tried, op_urgent, op_mid]"
    using keys_queue3 i
    by (simp add: get_pending_operations_def zrevrange_def zrev_sorted_def redis_range_def z
        before_def)
  show ?thesis using f queue3_listing(1) u p by auto
qed
subsection \<open>Retry bookkeeping that holds, and failing closed\<close>

lemma redis_range_all: "redis_range xs 0 (-1) = xs"
  by (cases xs) (auto simp: redis_range_def Let_def)

lemma bounded_zadd:
  assumes "retry_bounded r" "max_retries m = 3" "retry_count m < 3"
  shows "retry_bounded (zadd k m sc r)"
proof -
  have "\<And>k' e. e \<in> set (zsets (zadd k m sc r) k') \<Longrightarrow> max_retries (fst e) = 3 \<and> retry_count (fst e) < 3"
  proof -
    fix k' e assume e: "e \<in> set (zsets (zadd k m sc r) k')"
    show "max_retries (fst e) = 3 \<and> retry_count (fst e) < 3"
    proof (cases "k' = k")
      case True
      then have "e = (m, sc) \<or> e \<in> set (zsets r k)" using e by (auto simp: zadd_def)
      then show ?thesis using assms by (auto simp: retry_bounded_def)
    next
      case False
      then have "e \<in> set (zsets r k')" using e by (simp add: zadd_def)
      then show ?thesis using assms(1) by (auto simp: retry_bounded_def)
    qed
  qed
  moreover have "rlists (zadd k m sc r) = rlists r" by (simp add: zadd_def)
  ultimately show ?thesis using assms(1) by (simp add: retry_bounded_def)
qed

lemma bounded_lpush:
  assumes "retry_bounded r" "max_retries m = 3" "retry_count m \<le> 3"
  shows "retry_bounded (lpush k m r)"
proof -
  have "\<And>k' x. x \<in> set (rlists (lpush k m r) k') \<Longrightarrow> max_retries x = 3 \<and> retry_count x \<le> 3"
  proof -
    fix k' x assume x: "x \<in> set (rlists (lpush k m r) k')"
    show "max_retries x = 3 \<and> retry_count x \<le> 3"
    proof (cases "k' = k")
      case True
      then have "x = m \<or> x \<in> set (rlists r k)" using x by (auto simp: lpush_def)
      then show ?thesis using assms by (auto simp: retry_bounded_def)
    next
      case False
      then have "x \<in> set (rlists r k')" using x by (simp add: lpush_def)
      then show ?thesis using assms(1) by (auto simp: retry_bounded_def)
    qed
  qed
  moreover have "zsets (lpush k m r) = zsets r" by (simp add: lpush_def)
  ultimately show ?thesis using assms(1) by (simp add: retry_bounded_def)
qed

lemma bounded_lrem1:
  assumes "retry_bounded r"
  shows "retry_bounded (lrem1 k m r)"
  unfolding retry_bounded_def
proof (rule conjI; intro allI ballI)
  fix k' e assume "e \<in> set (zsets (lrem1 k m r) k')"
  then have "e \<in> set (zsets r k')" by (simp add: lrem1_def)
  then show "max_retries (fst e) = 3 \<and> retry_count (fst e) < 3"
    using assms unfolding retry_bounded_def by blast
next
  fix k' x assume "x \<in> set (rlists (lrem1 k m r) k')"
  then have "x \<in> set (rlists r k')"
    using set_remove1_subset[of m "rlists r k"] by (auto simp: lrem1_def split: if_splits)
  then show "max_retries x = 3 \<and> retry_count x \<le> 3"
    using assms unfolding retry_bounded_def by blast
qed

lemma bounded_remove: "retry_bounded r \<Longrightarrow> retry_bounded (remove_operation operation r)"
  by (simp add: retry_bounded_def remove_operation_def)

lemma bounded_process:
  assumes "retry_bounded r" "operation \<in> fst ` set (zsets r k)"
  shows "retry_bounded (snd (snd (snd (process_operation geo uuid now uid operation db r))))"
proof -
  have o: "max_retries operation = 3" "retry_count operation < 3"
    using assms by (auto simp: retry_bounded_def)
  have f: "retry_bounded (move_to_failed
      (operation\<lparr>last_attempt := Some now, retry_count := retry_count operation + 1, op_status := ''failed''\<rparr>) r)"
    unfolding move_to_failed_def by (rule bounded_lpush[OF assms(1)]) (use o in auto)
  have u: "\<not> max_retries operation \<le> retry_count operation + 1 \<Longrightarrow> retry_bounded (update_operation
      (operation\<lparr>last_attempt := Some now, retry_count := retry_count operation + 1, op_status := ''pending''\<rparr>) r)"
    unfolding update_operation_def by (rule bounded_zadd[OF assms(1)]) (use o in auto)
  show ?thesis
    using assms(1) f u
    by (auto simp: process_operation_def Let_def bounded_remove split: option.splits prod.splits)
qed

lemma find_member: "find P xs = Some x \<Longrightarrow> x \<in> set xs"
  by (induction xs) (auto split: if_splits)

lemma bounded_retry:
  assumes "retry_bounded r"
  shows "retry_bounded (snd (retry_failed_operation r operation_id usr))"
proof (cases "find (\<lambda>operation. op_id operation = operation_id) (lrange r (failed_key usr) 0 (-1))")
  case None
  then show ?thesis using assms by (simp add: retry_failed_operation_def)
next
  case (Some found)
  then have "found \<in> set (rlists r (failed_key usr))"
    using find_member[OF Some] by (simp add: lrange_def redis_range_all)
  then have m: "max_retries found = 3" using assms by (auto simp: retry_bounded_def)
  have "retry_bounded (zadd (queue_key usr) (found\<lparr>retry_count := 0, op_status := ''pending''\<rparr>)
          (score (found\<lparr>retry_count := 0, op_status := ''pending''\<rparr>)) (lrem1 (failed_key usr) found r))"
    by (rule bounded_zadd[OF bounded_lrem1[OF assms]]) (use m in auto)
  then show ?thesis using Some by (simp add: retry_failed_operation_def Let_def)
qed

lemma queue_state_bounded: "queue_state geo uuid r \<Longrightarrow> retry_bounded r"
proof (induction rule: queue_state.induct)
  case nothing_queued
  then show ?case by (simp add: retry_bounded_def empty_redis_def)
next
  case (by_queue_operation r uid now otype data usr prio)
  then show ?case
    by (simp add: queue_operation_def Let_def bounded_zadd new_operation_def)
next
  case (by_process_operation r operation usr now uid db)
  then show ?case by (simp add: bounded_process)
next
  case (by_retry_failed_operation r operation_id usr)
  then show ?case by (simp add: bounded_retry)
next
  case (by_clear_user_queue r usr)
  then show ?case by (auto simp: clear_user_queue_def retry_bounded_def)
qed

text \<open>
  Property X1 (the part of claim C8 that holds). In every state of the queue store, the
  retry count of a listed pending or failed operation does not exceed its
  \<^verbatim>\<open>max_retries\<close>.
\<close>

theorem retry_count_within_max_retries:
  assumes "queue_state geo uuid r"
      and "operation \<in> set (get_pending_operations after r usr limit)
           \<or> operation \<in> set (get_failed_operations r usr limit)"
  shows "retry_count operation \<le> max_retries operation"
proof -
  have b: "retry_bounded r" by (rule queue_state_bounded[OF assms(1)])
  from assms(2) show ?thesis
  proof
    assume "operation \<in> set (get_pending_operations after r usr limit)"
    then obtain e where "e \<in> set (zsets r (queue_key usr))" "fst e = operation"
      using set_redis_range[of "zrev_sorted after (zsets r (queue_key usr))" 0 "limit - 1"]
      by (auto simp: get_pending_operations_def zrevrange_def set_zrev_sorted)
    then have "max_retries operation = 3 \<and> retry_count operation < 3"
      using b unfolding retry_bounded_def by blast
    then show ?thesis by simp
  next
    assume "operation \<in> set (get_failed_operations r usr limit)"
    then have "operation \<in> set (rlists r (failed_key usr))"
      using set_redis_range[of "rlists r (failed_key usr)" 0 "limit - 1"]
      by (auto simp: get_failed_operations_def lrange_def)
    then have "max_retries operation = 3 \<and> retry_count operation \<le> 3"
      using b unfolding retry_bounded_def by blast
    then show ?thesis by simp
  qed
qed

theorem retry_count_within_max_retries_witness:
  "retry_count op1 \<le> max_retries op1 \<and> op1 \<in> set (get_pending_operations by_id queue2 ''u1'' 50)"
proof -
  have m: "op1 \<in> set (get_pending_operations by_id queue2 ''u1'' 50)" by (simp add: queue2_listing)
  show ?thesis
    using retry_count_within_max_retries[OF queue2_state, of op1 by_id "''u1''" 50] m by simp
qed

text \<open>
  Property X2 (the part of claim C8 that holds). \<^verbatim>\<open>retry_failed_operation\<close> on the
  id of an operation in the failed list returns \<^verbatim>\<open>True\<close>, removes one occurrence of
  it from the failed list and adds it to the pending set with retry count 0 and status
  pending.
\<close>

theorem retry_moves_operation_back_to_pending:
  assumes "find (\<lambda>operation. op_id operation = operation_id) (rlists r (failed_key usr)) = Some found"
  shows "fst (retry_failed_operation r operation_id usr) = True
       \<and> rlists (snd (retry_failed_operation r operation_id usr)) (failed_key usr)
           = remove1 found (rlists r (failed_key usr))
       \<and> found\<lparr>retry_count := 0, op_status := ''pending''\<rparr>
           \<in> fst ` set (zsets (snd (retry_failed_operation r operation_id usr)) (queue_key usr))
       \<and> retry_count (found\<lparr>retry_count := 0, op_status := ''pending''\<rparr>) = 0"
  using assms
  by (simp add: retry_failed_operation_def lrange_def redis_range_all Let_def zadd_def lrem1_def)

theorem retry_moves_operation_back_to_pending_witness:
  "get_failed_operations after_three_passes ''u1'' 50 = [attempt (Some la3) 3 ''failed'']
   \<and> fst (retry_failed_operation after_three_passes ''o1'' ''u1'') = True
   \<and> get_failed_operations (snd (retry_failed_operation after_three_passes ''o1'' ''u1'')) ''u1'' 50 = []
   \<and> attempt (Some la3) 0 ''pending''
       \<in> fst ` set (zsets (snd (retry_failed_operation after_three_passes ''o1'' ''u1'')) (queue_key ''u1''))"
proof -
  have l: "rlists after_three_passes (failed_key ''u1'') = [attempt (Some la3) 3 ''failed'']"
    by (simp add: after_three_passes_def third_pass qstate_def failed_key_def)
  have f: "find (\<lambda>operation. op_id operation = ''o1'') (rlists after_three_passes (failed_key ''u1''))
             = Some (attempt (Some la3) 3 ''failed'')"
    by (simp add: l)
  have a: "(attempt (Some la3) 3 ''failed'')\<lparr>retry_count := 0, op_status := ''pending''\<rparr>
             = attempt (Some la3) 0 ''pending''"
    by (simp add: attempt_def)
  show ?thesis
    using retry_moves_operation_back_to_pending[OF f] l a
    by (simp add: get_failed_operations_def lrange_def redis_range_def)
qed

text \<open>
  Property X3. \<^verbatim>\<open>verify_location\<close> fails closed: for an unknown meeting, or when the
  distance computation raises, the result is out of range with confidence 0.
\<close>

theorem verify_location_fails_closed:
  assumes "get_meeting db mid = None
           \<or> (\<exists>meeting. get_meeting db mid = Some meeting
                \<and> geo (m_lat meeting, m_lng meeting) (user_lat, user_lng) = None)"
  shows "is_within_range (verify_location geo db user_lat user_lng mid acc) = False
       \<and> accuracy_confidence (verify_location geo db user_lat user_lng mid acc) = 0
       \<and> distance_meters (verify_location geo db user_lat user_lng mid acc) = Infinite"
  using assms by (auto simp: verify_location_def out_of_reach_def)

theorem verify_location_fails_closed_witness:
  "is_within_range (verify_location flat_geodesic db_empty 91 0 ''m1'' None) = False
   \<and> accuracy_confidence (verify_location flat_geodesic db_empty 91 0 ''m1'' None) = 0
   \<and> is_within_range (verify_location flat_geodesic db_empty 40 (-74) ''m9'' None) = False"
proof -
  have a: "get_meeting db_empty ''m9'' = None" by (simp add: get_meeting_def db_empty_def m0_def)
  have b: "\<exists>meeting. get_meeting db_empty ''m1'' = Some meeting
                \<and> flat_geodesic (m_lat meeting, m_lng meeting) (91, 0) = None"
    by (simp add: get_meeting_def db_empty_def m0_def flat_geodesic_def)
  show ?thesis
    using verify_location_fails_closed[of db_empty "''m9''" flat_geodesic 40 "-74" None]
          verify_location_fails_closed[of db_empty "''m1''" flat_geodesic 91 0 None] a b
    by simp
qed

end
